theory Spec2Isabelle
  imports Complex_Main
begin

section \<open>Python and NumPy primitives\<close>

text \<open>
  The embedding follows \<^verbatim>\<open>barry/cosmology/camb_generator.py\<close>,
  \<^verbatim>\<open>barry/cosmology/pk2xi.py\<close> and the constructors of the correlation models.
  A Python \<^verbatim>\<open>float\<close> (a NumPy \<^verbatim>\<open>float64\<close>) that is finite is a \<open>real\<close>, and \<open>np_float\<close>
  keeps NaN and infinity apart from the finite values, because \<^verbatim>\<open>int()\<close> raises on them.
  Every number that decides an index, a branch or an exception (the fractional indices of the
  table, the integers of the cache fingerprint, the nodes of the grids) is computed as
  \<^verbatim>\<open>float64\<close> computes it: the exact result of each operation rounded to the nearest
  \<^verbatim>\<open>float64\<close>, ties to the even significand, infinite on overflow. The rows of the table
  and the values of the transform are not rounded: the arithmetic on them is exact. An
  exception is a value \<open>Inl e\<close> of a sum type.
\<close>

datatype py_error = IndexError | ValueError | OverflowError | TypeError | SystemExit int

datatype np_float = Finite real | NaN | Infinity

text \<open>
  Rounding to \<^verbatim>\<open>float64\<close>. \<open>round_even\<close> rounds to the nearest integer, a tie to the even
  one. A \<^verbatim>\<open>float64\<close> has a significand of 53 bits: a number \<open>x\<close> of the binade \<open>e\<close>, that is
  \<^verbatim>\<open>2^e <= |x| < 2^(e+1)\<close>, is rounded to a multiple of \<^verbatim>\<open>2^(e-52)\<close>; below \<^verbatim>\<open>2^(-1022)\<close>
  the spacing stays \<^verbatim>\<open>2^(-1074)\<close> (the subnormal numbers). \<open>fl64\<close> is the result of an
  operation whose exact value is \<open>x\<close>: a rounded value of \<^verbatim>\<open>2^1024\<close> or more is an overflow.
\<close>

definition round_even :: "real \<Rightarrow> int" where
  "round_even r =
     (if r - of_int \<lfloor>r\<rfloor> < 1 / 2 then \<lfloor>r\<rfloor>
      else if 1 / 2 < r - of_int \<lfloor>r\<rfloor> then \<lfloor>r\<rfloor> + 1
      else if even \<lfloor>r\<rfloor> then \<lfloor>r\<rfloor> else \<lfloor>r\<rfloor> + 1)"

definition binade :: "real \<Rightarrow> int" where
  "binade x = max \<lfloor>log 2 \<bar>x\<bar>\<rfloor> (- 1022)"

definition round64 :: "real \<Rightarrow> real" where
  "round64 x =
     (if x = 0 then 0
      else of_int (round_even (x * 2 powi (52 - binade x))) * 2 powi (binade x - 52))"

definition fl64 :: "real \<Rightarrow> np_float" where
  "fl64 x = (if 2 ^ 1024 \<le> \<bar>round64 x\<bar> then Infinity else Finite (round64 x))"

text \<open>
  The operations on \<^verbatim>\<open>float64\<close> scalars that the sources use: \<^verbatim>\<open>x - c\<close> for a finite
  \<open>c\<close>, \<^verbatim>\<open>a * b\<close> and \<^verbatim>\<open>a / b\<close>. NumPy warns and returns nan or inf when \<open>b\<close> is zero.
  The sign of an infinity is not kept: no operation here turns it into a finite value.
\<close>

fun np_sub :: "np_float \<Rightarrow> real \<Rightarrow> np_float" where
  "np_sub (Finite a) c = fl64 (a - c)"
| "np_sub v c = v"

fun np_mul :: "np_float \<Rightarrow> np_float \<Rightarrow> np_float" where
  "np_mul (Finite a) (Finite b) = fl64 (a * b)"
| "np_mul (Finite a) Infinity = (if a = 0 then NaN else Infinity)"
| "np_mul Infinity (Finite b) = (if b = 0 then NaN else Infinity)"
| "np_mul Infinity Infinity = Infinity"
| "np_mul NaN v = NaN"
| "np_mul v NaN = NaN"

fun np_true_divide :: "np_float \<Rightarrow> np_float \<Rightarrow> np_float" where
  "np_true_divide (Finite a) (Finite b) =
     (if b \<noteq> 0 then fl64 (a / b) else if a = 0 then NaN else Infinity)"
| "np_true_divide (Finite a) Infinity = Finite 0"
| "np_true_divide Infinity (Finite b) = Infinity"
| "np_true_divide Infinity Infinity = NaN"
| "np_true_divide NaN v = NaN"
| "np_true_divide v NaN = NaN"

fun np_floor :: "np_float \<Rightarrow> np_float" where
  "np_floor (Finite r) = Finite (of_int \<lfloor>r\<rfloor>)"
| "np_floor v = v"

fun np_ceil :: "np_float \<Rightarrow> np_float" where
  "np_ceil (Finite r) = Finite (of_int \<lceil>r\<rceil>)"
| "np_ceil v = v"

text \<open>\<^verbatim>\<open>int(x)\<close> of a float truncates towards zero; it raises on nan and on infinity.\<close>

definition py_trunc :: "real \<Rightarrow> int" where
  "py_trunc r = (if 0 \<le> r then \<lfloor>r\<rfloor> else \<lceil>r\<rceil>)"

fun py_int :: "np_float \<Rightarrow> py_error + int" where
  "py_int (Finite r) = Inr (py_trunc r)"
| "py_int NaN = Inl ValueError"
| "py_int Infinity = Inl OverflowError"

text \<open>
  An integer that meets a float in a product is converted to \<^verbatim>\<open>float64\<close>, rounded; an
  integer too large for a float raises.
\<close>

definition py_float :: "int \<Rightarrow> py_error + np_float" where
  "py_float i = (case fl64 (of_int i) of Infinity \<Rightarrow> Inl OverflowError | v \<Rightarrow> Inr v)"

text \<open>\<^verbatim>\<open>xs[i]\<close>: a negative index counts from the end, an index out of range raises.\<close>

definition py_get :: "'a list \<Rightarrow> int \<Rightarrow> py_error + 'a" where
  "py_get xs i =
     (if 0 \<le> i \<and> i < int (length xs) then Inr (xs ! nat i)
      else if i < 0 \<and> - int (length xs) \<le> i then Inr (xs ! nat (int (length xs) + i))
      else Inl IndexError)"

text \<open>\<^verbatim>\<open>xs[a:b]\<close> and \<^verbatim>\<open>xs[a:]\<close> for bounds that are not negative.\<close>

definition py_slice :: "'a list \<Rightarrow> nat \<Rightarrow> nat \<Rightarrow> 'a list" where
  "py_slice xs a b = drop a (take b xs)"

definition py_slice_from :: "'a list \<Rightarrow> nat \<Rightarrow> 'a list" where
  "py_slice_from xs a = drop a xs"

text \<open>
  \<^verbatim>\<open>np.linspace(start, stop, num)\<close> on \<^verbatim>\<open>float64\<close>: with \<^verbatim>\<open>delta = stop - start\<close> and
  \<^verbatim>\<open>step = delta / (num - 1)\<close> the samples are \<^verbatim>\<open>arange(0, num) * step + start\<close>
  (\<^verbatim>\<open>arange(0, num) / (num - 1) * delta + start\<close> when the step is zero,
  \<^verbatim>\<open>arange(0, num) * delta + start\<close> for a single sample), each operation rounded; the last
  of two samples or more is set to \<open>stop\<close>. The grids of the sources are far from overflow.
\<close>

definition linspace :: "real \<Rightarrow> real \<Rightarrow> nat \<Rightarrow> real list" where
  "linspace start stop num =
     (let delta = round64 (stop - start);
          dv = real (num - 1);
          step = round64 (delta / dv);
          y = (\<lambda>i. if num = 1 then round64 (real i * delta)
                   else if step = 0 then round64 (round64 (real i / dv) * delta)
                   else round64 (real i * step));
          ys = map (\<lambda>i. round64 (y i + start)) [0..<num]
      in if 1 < num then butlast ys @ [stop] else ys)"

text \<open>
  \<^verbatim>\<open>np.logspace(start, stop, num, base=np.e)\<close> is \<^verbatim>\<open>np.e ** linspace(start, stop, num)\<close>.
  The power \<^verbatim>\<open>np.e ** y\<close> and the logarithm \<^verbatim>\<open>np.log\<close> are functions of the numerical
  library: their \<^verbatim>\<open>float64\<close> results are near \<open>exp y\<close> and \<open>ln x\<close> but not determined by
  them, so the power is a parameter here.
\<close>

definition logspace :: "(real \<Rightarrow> real) \<Rightarrow> real \<Rightarrow> real \<Rightarrow> nat \<Rightarrow> real list" where
  "logspace e_power start stop num = map e_power (linspace start stop num)"

text \<open>\<^verbatim>\<open>str(n)\<close> of an integer, as an f-string renders it.\<close>

definition digit_char :: "nat \<Rightarrow> char" where
  "digit_char d = ''0123456789'' ! d"

fun str_nat :: "nat \<Rightarrow> string" where
  "str_nat n = (if n < 10 then [digit_char n] else str_nat (n div 10) @ [digit_char (n mod 10)])"

declare str_nat.simps [simp del]

definition str_int :: "int \<Rightarrow> string" where
  "str_int i = (if i < 0 then CHR ''-'' # str_nat (nat (- i)) else str_nat (nat i))"

section \<open>The tabulated cosmology generator\<close>

text \<open>
  The table \<^verbatim>\<open>self.data\<close> is a three-dimensional array: \<open>d ! i ! j\<close> is the row of the
  cell with index \<open>i\<close> on the \<open>omch2\<close> axis and \<open>j\<close> on the \<open>h0\<close> axis.
\<close>

type_synonym table = "real list list list"

record CambGenerator =
  om_resolution :: nat
  h0_resolution :: nat
  h0 :: real
  redshift :: real
  data_dir :: string
  filename_unique :: string
  filename :: string
  k_min :: real
  k_max :: real
  k_num :: nat
  ks :: "real list"
  omch2s :: "real list"
  omega_b :: real
  ns :: real
  h0s :: "real list"
  data :: "table option"

text \<open>
  \<^verbatim>\<open>CambGenerator.__init__\<close>. \<open>module_dir\<close> is the directory of the module file
  (\<^verbatim>\<open>os.path.dirname(inspect.stack()[0][1])\<close>), \<^verbatim>\<open>os.sep\<close> is \<^verbatim>\<open>/\<close>. The resolutions
  are counts, the other arguments are finite floats. \<^verbatim>\<open>int(x * c)\<close> truncates the rounded
  product and raises when it overflowed. The literals \<^verbatim>\<open>0.05\<close>, \<^verbatim>\<open>0.3\<close>, \<^verbatim>\<open>0.6\<close>,
  \<^verbatim>\<open>0.8\<close> and \<^verbatim>\<open>1e-4\<close> are the floats nearest to them. The wavenumbers \<open>ks\<close> are values
  that no branch of the generator looks at: for them \<open>ln\<close> and \<open>exp\<close> stand for the library.
  The line the constructor writes to the logger is not part of the record.
\<close>

definition scaled_int :: "real \<Rightarrow> real \<Rightarrow> py_error + int" where
  "scaled_int x c = py_int (fl64 (x * c))"

definition fingerprint ::
  "real \<Rightarrow> nat \<Rightarrow> nat \<Rightarrow> real \<Rightarrow> real \<Rightarrow> real \<Rightarrow> py_error + string" where
  "fingerprint z om_res h0_res h ob n =
     (case scaled_int h 10000 of Inl e \<Rightarrow> Inl e | Inr hh \<Rightarrow>
      case scaled_int z 1000 of Inl e \<Rightarrow> Inl e | Inr zz \<Rightarrow>
      case scaled_int ob 10000 of Inl e \<Rightarrow> Inl e | Inr bb \<Rightarrow>
      case scaled_int n 1000 of Inl e \<Rightarrow> Inl e | Inr nn \<Rightarrow>
        Inr (str_int zz @ ''_'' @ str_nat om_res @ ''_'' @ str_nat h0_res @ ''_''
               @ str_int hh @ ''_'' @ str_int bb @ ''_'' @ str_int nn))"

definition CambGenerator_init ::
  "string \<Rightarrow> real \<Rightarrow> nat \<Rightarrow> nat \<Rightarrow> real \<Rightarrow> real \<Rightarrow> real \<Rightarrow> py_error + CambGenerator" where
  "CambGenerator_init module_dir z om_res h0_res h ob n =
     (let dir = module_dir @ ''/'' @ ''data/'' in
      case fingerprint z om_res h0_res h ob n of Inl e \<Rightarrow> Inl e | Inr unique \<Rightarrow>
        Inr \<lparr> om_resolution = om_res,
              h0_resolution = h0_res,
              h0 = h,
              redshift = z,
              data_dir = dir,
              filename_unique = unique,
              filename = dir @ ''cosmo_'' @ unique @ ''.npy'',
              k_min = round64 (1 / 10000),
              k_max = 5,
              k_num = 2000,
              ks = logspace exp (ln (round64 (1 / 10000))) (ln 5) 2000,
              omch2s = linspace (round64 (1 / 20)) (round64 (3 / 10)) om_res,
              omega_b = ob,
              ns = n,
              h0s = (if h0_res = 1 then [h] else linspace (round64 (3 / 5)) (round64 (4 / 5)) h0_res),
              data = None \<rparr>)"

text \<open>
  \<^verbatim>\<open>CambGenerator._interpolate\<close>. The query \<open>omch2\<close> is the float that \<^verbatim>\<open>get_data\<close> computed,
  \<open>hq\<close> a finite float. The fractional index is a \<^verbatim>\<open>float64\<close>:
  \<^verbatim>\<open>1.0 * (N - 1)\<close> is the float of \<open>N - 1\<close>, the difference, the product and the quotient are
  each rounded, and a grid of one point makes the index \<^verbatim>\<open>0.0 / 0.0\<close>. The fractional part
  \<^verbatim>\<open>i - np.floor(i)\<close> of a float is a float. \<^verbatim>\<open>data[i, j]\<close> is NumPy indexing on the first
  two axes.
\<close>

definition np_index2 :: "table \<Rightarrow> int \<Rightarrow> int \<Rightarrow> py_error + real list" where
  "np_index2 d i j = (case py_get d i of Inl e \<Rightarrow> Inl e | Inr plane \<Rightarrow> py_get plane j)"

definition scale :: "real list \<Rightarrow> real \<Rightarrow> real list" where
  "scale v c = map (\<lambda>a. a * c) v"

definition vadd :: "real list \<Rightarrow> real list \<Rightarrow> real list" where
  "vadd u v = map2 (+) u v"

definition frac :: "np_float \<Rightarrow> real" where
  "frac v = (case v of Finite r \<Rightarrow> r - of_int \<lfloor>r\<rfloor> | _ \<Rightarrow> 0)"

definition omch2_index :: "CambGenerator \<Rightarrow> np_float \<Rightarrow> py_error + np_float" where
  "omch2_index g omch2 =
     (case py_float (int (om_resolution g) - 1) of Inl e \<Rightarrow> Inl e | Inr n \<Rightarrow>
      case py_get (omch2s g) 0 of Inl e \<Rightarrow> Inl e | Inr lo \<Rightarrow>
      case py_get (omch2s g) (- 1) of Inl e \<Rightarrow> Inl e | Inr up \<Rightarrow>
        Inr (np_true_divide (np_mul n (np_sub omch2 lo)) (fl64 (up - lo))))"

definition h0_index :: "CambGenerator \<Rightarrow> real \<Rightarrow> py_error + np_float" where
  "h0_index g hq =
     (if h0_resolution g = 1 then Inr (Finite 0)
      else
        case py_float (int (h0_resolution g) - 1) of Inl e \<Rightarrow> Inl e | Inr n \<Rightarrow>
        case py_get (h0s g) 0 of Inl e \<Rightarrow> Inl e | Inr lo \<Rightarrow>
        case py_get (h0s g) (- 1) of Inl e \<Rightarrow> Inl e | Inr up \<Rightarrow>
          Inr (np_true_divide (np_mul n (np_sub (Finite hq) lo)) (fl64 (up - lo))))"

definition blend :: "CambGenerator \<Rightarrow> table \<Rightarrow> np_float \<Rightarrow> np_float \<Rightarrow> py_error + real list" where
  "blend g d oi hi =
     (let x = frac oi; y = frac hi in
      case py_int (np_floor oi) of Inl e \<Rightarrow> Inl e | Inr i0 \<Rightarrow>
      case py_int (np_floor hi) of Inl e \<Rightarrow> Inl e | Inr j0 \<Rightarrow>
      case np_index2 d i0 j0 of Inl e \<Rightarrow> Inl e | Inr v1 \<Rightarrow>
      case py_int (np_ceil oi) of Inl e \<Rightarrow> Inl e | Inr i1 \<Rightarrow>
      case np_index2 d i1 j0 of Inl e \<Rightarrow> Inl e | Inr v2 \<Rightarrow>
        if h0_resolution g = 1 then
          Inr (vadd (scale (scale v1 (1 - x)) (1 - y)) (scale (scale v2 x) (1 - y)))
        else
          case py_int (np_ceil hi) of Inl e \<Rightarrow> Inl e | Inr j1 \<Rightarrow>
          case np_index2 d i0 j1 of Inl e \<Rightarrow> Inl e | Inr v3 \<Rightarrow>
          case np_index2 d i1 j1 of Inl e \<Rightarrow> Inl e | Inr v4 \<Rightarrow>
            Inr (vadd (vadd (vadd (scale (scale v1 (1 - x)) (1 - y)) (scale (scale v2 x) (1 - y)))
                            (scale (scale v3 y) (1 - x)))
                      (scale (scale v4 x) y)))"

definition interpolate :: "CambGenerator \<Rightarrow> np_float \<Rightarrow> real \<Rightarrow> py_error + real list" where
  "interpolate g omch2 hq =
     (case omch2_index g omch2 of Inl e \<Rightarrow> Inl e | Inr oi \<Rightarrow>
      case h0_index g hq of Inl e \<Rightarrow> Inl e | Inr hi \<Rightarrow>
      case data g of
        None \<Rightarrow> (case py_int (np_floor oi) of Inl e \<Rightarrow> Inl e | Inr _ \<Rightarrow>
                 case py_int (np_floor hi) of Inl e \<Rightarrow> Inl e | Inr _ \<Rightarrow> Inl TypeError)
      | Some d \<Rightarrow> blend g d oi hi)"

text \<open>
  The world outside the generator: the files under \<^verbatim>\<open>data/\<close> (a file that exists holds a
  table \<^verbatim>\<open>np.load\<close> can read), the directories \<^verbatim>\<open>os.makedirs\<close> created, and the lines
  written to the logger at level info and error by \<^verbatim>\<open>load_data\<close> and
  \<^verbatim>\<open>_generate_data\<close> (the debug line of each cell is left out).
\<close>

datatype log_line =
    Info_loading_existing
  | Error_data_does_not_exist
  | Info_generating nat nat
  | Info_configured_camb
  | Info_saving_to string

record world =
  files :: "string \<rightharpoonup> table"
  dirs :: "string set"
  logged :: "log_line list"

text \<open>
  The Boltzmann solver \<^verbatim>\<open>camb\<close> is a library outside the repository: a parameter. For one
  cell it is called with \<^verbatim>\<open>H0\<close>, \<^verbatim>\<open>omch2\<close> and \<^verbatim>\<open>ombh2\<close> (the other settings are
  those of the generator) and gives \<^verbatim>\<open>rdrag\<close>, the linear spectra and then the
  nonlinear ones, one row per redshift; a failure of the solver is an exception.
\<close>

record camb_results =
  rdrag :: real
  pk_lin :: "real list list"
  pk_nonlin :: "real list list"

type_synonym camb_solver = "CambGenerator \<Rightarrow> real \<Rightarrow> real \<Rightarrow> real \<Rightarrow> py_error + camb_results"

text \<open>\<^verbatim>\<open>row[a:b] = src\<close> on a slice of \<open>n\<close> entries: \<open>src\<close> has \<open>n\<close> entries or is broadcast from one.\<close>

definition np_assign :: "nat \<Rightarrow> real list \<Rightarrow> py_error + real list" where
  "np_assign n src =
     (if length src = n then Inr src
      else if length src = 1 then Inr (replicate n (hd src))
      else Inl ValueError)"

definition cell_row :: "nat \<Rightarrow> camb_results \<Rightarrow> py_error + real list" where
  "cell_row k r =
     (case py_get (pk_lin r) 1 of Inl e \<Rightarrow> Inl e | Inr lin \<Rightarrow>
      case np_assign k lin of Inl e \<Rightarrow> Inl e | Inr a \<Rightarrow>
      case np_assign (2 * k) (concat (pk_nonlin r)) of Inl e \<Rightarrow> Inl e | Inr b \<Rightarrow>
        Inr (rdrag r # a @ b))"

fun emap :: "('a \<Rightarrow> 'e + 'b) \<Rightarrow> 'a list \<Rightarrow> 'e + 'b list" where
  "emap f [] = Inr []"
| "emap f (x # xs) =
     (case f x of Inl e \<Rightarrow> Inl e | Inr y \<Rightarrow>
       (case emap f xs of Inl e \<Rightarrow> Inl e | Inr ys \<Rightarrow> Inr (y # ys)))"

text \<open>\<^verbatim>\<open>CambGenerator._generate_data\<close>: one solver call per cell, then \<^verbatim>\<open>np.save\<close>.\<close>

definition generate_data :: "camb_solver \<Rightarrow> world \<Rightarrow> CambGenerator \<Rightarrow> (py_error + table) \<times> world" where
  "generate_data camb w g =
     (let w1 = w\<lparr>logged := logged w @ [Info_generating (om_resolution g) (h0_resolution g)]\<rparr>;
          w2 = w1\<lparr>dirs := insert (data_dir g) (dirs w1)\<rparr>;
          w3 = w2\<lparr>logged := logged w2 @ [Info_configured_camb]\<rparr>
      in case emap (\<lambda>omch2. emap (\<lambda>h.
                 case camb g (h * 100) omch2 (omega_b g * h * h) of Inl e \<Rightarrow> Inl e
                 | Inr r \<Rightarrow> cell_row (k_num g) r) (h0s g)) (omch2s g) of
           Inl e \<Rightarrow> (Inl e, w3)
         | Inr d \<Rightarrow>
             (Inr d, w3\<lparr>logged := logged w3 @ [Info_saving_to (filename g)],
                        files := (files w3)(filename g \<mapsto> d)\<rparr>))"

text \<open>
  The solver succeeds when, for every cell, it returns and its spectra fit the row:
  \<^verbatim>\<open>pk_lin[1, :]\<close> exists and fills \<open>k_num\<close> entries, \<^verbatim>\<open>pk_nonlin.flatten()\<close> fills
  \<open>2 * k_num\<close>.
\<close>

definition solver_succeeds :: "camb_solver \<Rightarrow> CambGenerator \<Rightarrow> bool" where
  "solver_succeeds camb g \<longleftrightarrow>
     (\<forall>H omch2 ombh2. \<exists>r row. camb g H omch2 ombh2 = Inr r \<and> cell_row (k_num g) r = Inr row)"

text \<open>\<^verbatim>\<open>CambGenerator.load_data\<close>: the result, the generator and the world afterwards.\<close>

definition load_data ::
  "camb_solver \<Rightarrow> world \<Rightarrow> CambGenerator \<Rightarrow> bool \<Rightarrow> (py_error + unit) \<times> CambGenerator \<times> world" where
  "load_data camb w g can_generate =
     (if files w (filename g) = None then
        if \<not> can_generate then
          (Inl ValueError, g, w\<lparr>logged := logged w @ [Error_data_does_not_exist]\<rparr>)
        else
          (case generate_data camb w g of
             (Inl e, w') \<Rightarrow> (Inl e, g, w')
           | (Inr d, w') \<Rightarrow> (Inr (), g\<lparr>data := Some d\<rparr>, w'))
      else
        (Inr (), g\<lparr>data := files w (filename g)\<rparr>,
         w\<lparr>logged := logged w @ [Info_loading_existing]\<rparr>))"


text \<open>
  \<^verbatim>\<open>CambGenerator.get_data\<close>, the body under \<^verbatim>\<open>lru_cache\<close>: \<open>None\<close> for \<open>hopt\<close> is
  the default \<^verbatim>\<open>h0=None\<close>. \<open>omch2_of\<close> is the local
  \<^verbatim>\<open>omch2 = (om - self.omega_b) * h0 * h0\<close>, three rounded operations on floats.
\<close>

definition omch2_of :: "real \<Rightarrow> real \<Rightarrow> real \<Rightarrow> np_float" where
  "omch2_of om ob hq = np_mul (np_mul (fl64 (om - ob)) (Finite hq)) (Finite hq)"

definition get_data ::
  "camb_solver \<Rightarrow> world \<Rightarrow> CambGenerator \<Rightarrow> real \<Rightarrow> real option
     \<Rightarrow> (py_error + real \<times> real list \<times> real list) \<times> CambGenerator \<times> world" where
  "get_data camb w g om hopt =
     (let hq = (case hopt of None \<Rightarrow> h0 g | Some h \<Rightarrow> h) in
      case (if data g = None then load_data camb w g False else (Inr (), g, w)) of
        (Inl e, g', w') \<Rightarrow> (Inl e, g', w')
      | (Inr _, g', w') \<Rightarrow>
          (case interpolate g' (omch2_of om (omega_b g') hq) hq of
             Inl e \<Rightarrow> (Inl e, g', w')
           | Inr row \<Rightarrow>
               (case py_get row 0 of
                  Inl e \<Rightarrow> (Inl e, g', w')
                | Inr r \<Rightarrow>
                    (Inr (r, py_slice row 1 (1 + k_num g'), py_slice_from row (1 + 2 * k_num g')),
                     g', w'))))"

text \<open>
  What the constructor establishes and nothing changes afterwards: the two sample grids and
  the number of wavenumbers. A table has the shape \<^verbatim>\<open>_generate_data\<close> allocates:
  \<^verbatim>\<open>(om_resolution, h0_resolution, 1 + 3 * k_num)\<close>.
\<close>

definition grids :: "CambGenerator \<Rightarrow> bool" where
  "grids g \<longleftrightarrow>
     omch2s g = linspace (round64 (1 / 20)) (round64 (3 / 10)) (om_resolution g) \<and>
     h0s g = (if h0_resolution g = 1 then [h0 g]
              else linspace (round64 (3 / 5)) (round64 (4 / 5)) (h0_resolution g)) \<and>
     length (ks g) = k_num g"

definition table_shape :: "CambGenerator \<Rightarrow> table \<Rightarrow> bool" where
  "table_shape g d \<longleftrightarrow>
     length d = om_resolution g \<and>
     list_all (\<lambda>plane. length plane = h0_resolution g \<and>
                list_all (\<lambda>row. length row = 1 + 3 * k_num g) plane) d"

text \<open>
  The statement of bilinear interpolation, in the words of the specification: the four
  surrounding rows are blended with the weights \<open>(1-x)(1-y)\<close>, \<open>x(1-y)\<close>, \<open>(1-x)y\<close> and
  \<open>xy\<close>, where \<open>x\<close> and \<open>y\<close> are the fractional parts of the two indices; \<open>bilinear_at\<close>
  is the blend of the rows of the table at the floor and the ceiling of an index pair
  \<open>(oi, hi)\<close>. \<open>cell\<close> reads a row the way NumPy resolves an index: a negative one counts
  from the end.
\<close>

definition wrap :: "nat \<Rightarrow> int \<Rightarrow> nat" where
  "wrap n i = nat (if i < 0 then int n + i else i)"

definition cell :: "table \<Rightarrow> int \<Rightarrow> int \<Rightarrow> real list" where
  "cell d i j = (let plane = d ! wrap (length d) i in plane ! wrap (length plane) j)"

definition bilinear ::
  "real list \<Rightarrow> real list \<Rightarrow> real list \<Rightarrow> real list \<Rightarrow> real \<Rightarrow> real \<Rightarrow> real list" where
  "bilinear v1 v2 v3 v4 x y =
     map (\<lambda>c. (1 - x) * (1 - y) * v1 ! c + x * (1 - y) * v2 ! c + (1 - x) * y * v3 ! c + x * y * v4 ! c)
       [0..<length v1]"

definition bilinear_at :: "table \<Rightarrow> real \<Rightarrow> real \<Rightarrow> real list" where
  "bilinear_at d oi hi =
     bilinear (d ! nat \<lfloor>oi\<rfloor> ! nat \<lfloor>hi\<rfloor>) (d ! nat \<lceil>oi\<rceil> ! nat \<lfloor>hi\<rfloor>)
              (d ! nat \<lfloor>oi\<rfloor> ! nat \<lceil>hi\<rceil>) (d ! nat \<lceil>oi\<rceil> ! nat \<lceil>hi\<rceil>)
              (oi - of_int \<lfloor>oi\<rfloor>) (hi - of_int \<lfloor>hi\<rfloor>)"

definition in_index_range :: "CambGenerator \<Rightarrow> real \<Rightarrow> real \<Rightarrow> bool" where
  "in_index_range g oi hi \<longleftrightarrow>
     - int (om_resolution g) \<le> \<lfloor>oi\<rfloor> \<and> \<lceil>oi\<rceil> < int (om_resolution g) \<and>
     - int (h0_resolution g) \<le> \<lfloor>hi\<rfloor> \<and> \<lceil>hi\<rceil> < int (h0_resolution g)"

text \<open>
  \<open>interpolate_1d\<close> is linear interpolation over the \<open>omch2\<close> axis alone, in the words of
  the specification: \<^verbatim>\<open>(1-x) * data[floor][0] + x * data[ceil][0]\<close>, with \<open>x\<close> the
  fractional part of the index on that axis.
\<close>

definition interpolate_1d :: "CambGenerator \<Rightarrow> table \<Rightarrow> np_float \<Rightarrow> py_error + real list" where
  "interpolate_1d g d omch2 =
     (case omch2_index g omch2 of Inl e \<Rightarrow> Inl e | Inr oi \<Rightarrow>
      case py_int (np_floor oi) of Inl e \<Rightarrow> Inl e | Inr i0 \<Rightarrow>
      case np_index2 d i0 0 of Inl e \<Rightarrow> Inl e | Inr lo \<Rightarrow>
      case py_int (np_ceil oi) of Inl e \<Rightarrow> Inl e | Inr i1 \<Rightarrow>
      case np_index2 d i1 0 of Inl e \<Rightarrow> Inl e | Inr up \<Rightarrow>
        Inr (map2 (\<lambda>a b. (1 - frac oi) * a + frac oi * b) lo up))"

section \<open>The transform from power spectrum to correlation function\<close>

text \<open>
  In \<^verbatim>\<open>pk2xi.py\<close> a computed float that may be nan or infinite is a \<open>real option\<close>, \<open>None\<close>
  for a value that is not finite: it arises from a division by zero and every further sum
  and product keeps it. The wavenumbers handed to the constructor are positive (\<^verbatim>\<open>np.log\<close>
  of another number is not finite and outside the embedding).
\<close>

definition fdiv :: "real \<Rightarrow> real \<Rightarrow> real option" where
  "fdiv a b = (if b = 0 then None else Some (a / b))"

definition lift2 :: "(real \<Rightarrow> real \<Rightarrow> real) \<Rightarrow> real option \<Rightarrow> real option \<Rightarrow> real option" where
  "lift2 f a b = (case a of None \<Rightarrow> None | Some u \<Rightarrow> (case b of None \<Rightarrow> None | Some v \<Rightarrow> Some (f u v)))"

record PowerToCorrelationGauss =
  ks0 :: "real list"
  ks2 :: "real list"
  precomp :: "real list"

text \<open>
  \<^verbatim>\<open>PowerToCorrelationGauss.__init__\<close> (the field \<open>ks0\<close> is \<^verbatim>\<open>self.ks\<close>); \<^verbatim>\<open>np.min\<close> of
  an empty array raises. The defaults are \<^verbatim>\<open>interpolateDetail=2\<close> and \<^verbatim>\<open>a=0.25\<close>. The nodes
  of the dense grid decide whether a call raises, and they come out of the library:
  \<open>np_log\<close> is \<^verbatim>\<open>np.log\<close> and \<open>e_power\<close> is \<^verbatim>\<open>np.e ** y\<close> on \<^verbatim>\<open>float64\<close>, both parameters.
  In particular \<open>e_power (np_log k)\<close> need not be \<open>k\<close>. The damping is a value: its
  exponential is \<open>exp\<close>.
\<close>

definition PowerToCorrelationGauss_init ::
  "(real \<Rightarrow> real) \<Rightarrow> (real \<Rightarrow> real) \<Rightarrow> real list \<Rightarrow> nat \<Rightarrow> real
     \<Rightarrow> py_error + PowerToCorrelationGauss" where
  "PowerToCorrelationGauss_init np_log e_power k interpolateDetail a =
     (if k = [] then Inl ValueError
      else
        let grid = logspace e_power (np_log (Min (set k))) (np_log (Max (set k)))
                     (interpolateDetail * length k)
        in Inr \<lparr> ks0 = k, ks2 = grid,
                 precomp = map (\<lambda>q. q * exp (- q * q * a * a) / (2 * pi * pi)) grid \<rparr>)"



text \<open>
  \<^verbatim>\<open>scipy.interpolate.interp1d(x, y, kind="linear")(x_new)\<close>, a library outside the
  repository: \<open>x\<close> and \<open>y\<close> of the same length, sorted by \<open>x\<close> with a stable \<^verbatim>\<open>argsort\<close>;
  a point of \<open>x_new\<close> outside \<open>[x[0], x[-1]]\<close> raises (\<^verbatim>\<open>bounds_error\<close>); a value comes
  from \<^verbatim>\<open>searchsorted\<close>, clipped to \<open>1 .. len(x) - 1\<close>, and the slope between the two
  neighbours. For distinct \<open>x\<close> of two entries or more every \<^verbatim>\<open>argsort\<close> gives this order
  and the values are those of \<^verbatim>\<open>np.interp\<close> as well. An \<open>x\<close> of a single entry is refused
  here, as by the SciPy of the repository's time; the theorems on values take two entries
  or more.
\<close>

definition argsort :: "real list \<Rightarrow> nat list" where
  "argsort x = map snd (sort_key fst (zip x [0..<length x]))"

definition searchsorted :: "real list \<Rightarrow> real \<Rightarrow> nat" where
  "searchsorted xs v = length (takeWhile (\<lambda>x. x < v) xs)"

definition call_linear :: "real list \<Rightarrow> real list \<Rightarrow> real \<Rightarrow> real option" where
  "call_linear xs ys x_new =
     (let i = min (max (searchsorted xs x_new) 1) (length xs - 1);
          lo = i - 1;
          slope = fdiv (ys ! i - ys ! lo) (xs ! i - xs ! lo)
      in map_option (\<lambda>m. m * (x_new - xs ! lo) + ys ! lo) slope)"

definition interp1d :: "real list \<Rightarrow> real list \<Rightarrow> real list \<Rightarrow> py_error + real option list" where
  "interp1d x y x_new =
     (if length x \<noteq> length y then Inl ValueError
      else if length x < 2 then Inl ValueError
      else
        let ind = argsort x;
            xs = map (\<lambda>i. x ! i) ind;
            ys = map (\<lambda>i. y ! i) ind
        in if list_ex (\<lambda>v. v < hd xs \<or> last xs < v) x_new then Inl ValueError
           else Inr (map (call_linear xs ys) x_new))"

text \<open>
  \<^verbatim>\<open>trapz(y, x)\<close> is \<^verbatim>\<open>sum(diff(x) * (y[1:] + y[:-1]) / 2.0)\<close>; with fewer than two
  samples the sum is empty.
\<close>

fun trapz :: "real list \<Rightarrow> real list \<Rightarrow> real" where
  "trapz (y0 # y1 # ys) (x0 # x1 # xs) = (x1 - x0) * (y1 + y0) / 2 + trapz (y1 # ys) (x1 # xs)"
| "trapz _ _ = 0"

definition np_trapz :: "real option list \<Rightarrow> real list \<Rightarrow> real option" where
  "np_trapz y x = (if length x < 2 then Some 0 else map_option (\<lambda>ys. trapz ys x) (those y))"

text \<open>\<^verbatim>\<open>PowerToCorrelationGauss.__call__\<close>.\<close>

definition integrand :: "real option list \<Rightarrow> real list \<Rightarrow> real \<Rightarrow> real option list" where
  "integrand kkpks k2 s =
     map2 (\<lambda>kk q. case kk of None \<Rightarrow> None | Some c \<Rightarrow> fdiv (c * sin (q * s)) s) kkpks k2"

definition PowerToCorrelationGauss_call ::
  "PowerToCorrelationGauss \<Rightarrow> real list \<Rightarrow> real list \<Rightarrow> real list \<Rightarrow> py_error + real option list" where
  "PowerToCorrelationGauss_call self k pks ss =
     (case interp1d k pks (ks2 self) of
        Inl e \<Rightarrow> Inl e
      | Inr pks2 \<Rightarrow>
          (let kkpks = map2 (\<lambda>p v. map_option (\<lambda>u. p * u) v) (precomp self) pks2
           in Inr (map (\<lambda>s. np_trapz (integrand kkpks (ks2 self) s) (ks2 self)) ss)))"


text \<open>
  The transform in the words of the specification, for a dense grid \<open>grid\<close>: the damping is
  \<open>k exp(-k\<^sup>2 a\<^sup>2) / (2 \<pi>\<^sup>2)\<close>; \<open>lerp\<close> is the piecewise linear interpolant through the
  samples \<open>(xs, ys)\<close>; the integrand at distance \<open>s\<close> is \<open>damping(k) pk(k) sin(k s) / s\<close>;
  \<open>quadrature\<close> is the trapezoidal rule for samples \<open>f\<close> at the abscissae \<open>t\<close>, here the
  nodes of the dense grid, which the constructor spaces evenly in \<open>ln k\<close>.
\<close>

definition damping :: "real \<Rightarrow> real \<Rightarrow> real" where
  "damping a k = k * exp (- (k\<^sup>2 * a\<^sup>2)) / (2 * pi\<^sup>2)"

fun lerp :: "real list \<Rightarrow> real list \<Rightarrow> real \<Rightarrow> real" where
  "lerp (x0 # x1 # xs) (y0 # y1 # ys) v =
     (if v \<le> x1 \<or> xs = [] then y0 + (y1 - y0) / (x1 - x0) * (v - x0)
      else lerp (x1 # xs) (y1 # ys) v)"
| "lerp _ _ v = 0"

definition quadrature :: "(nat \<Rightarrow> real) \<Rightarrow> (nat \<Rightarrow> real) \<Rightarrow> nat \<Rightarrow> real" where
  "quadrature f t n = (\<Sum>i<n - 1. (t (Suc i) - t i) * (f i + f (Suc i)) / 2)"

definition spec_xi :: "real list \<Rightarrow> real \<Rightarrow> real list \<Rightarrow> real list \<Rightarrow> real \<Rightarrow> real" where
  "spec_xi grid a x pk s =
     quadrature (\<lambda>i. damping a (grid ! i) * lerp x pk (grid ! i) * sin (grid ! i * s) / s)
       (\<lambda>i. grid ! i) (length grid)"

section \<open>The constructors of the correlation models\<close>







section \<open>Sample inputs\<close>

text \<open>
  Generators built with the default redshift, \<open>h0\<close>, \<open>ob\<close> and \<open>ns\<close> of the constructor
  (the floats of the literals 0.61, 0.676, 0.04814 and 0.97): one with three points on the
  \<open>omch2\<close> axis and the single value of \<open>h0\<close>, its table loaded; one with a single point on
  the \<open>omch2\<close> axis; one with 101 points on the \<open>omch2\<close> axis and six on the \<open>h0\<close> axis;
  one not yet loaded. A world without files; a solver that fails and one that returns
  constant spectra. Transforms built on the wavenumbers 1 and 2 with a library whose
  logarithm and power are exact; a check of the smoothing method against two names.
\<close>

definition example_table :: table where
  "example_table = [[replicate 6001 1], [replicate 6001 2], [replicate 6001 4]]"

definition default_generator :: "nat \<Rightarrow> nat \<Rightarrow> CambGenerator" where
  "default_generator om_res h0_res =
     projr (CambGenerator_init ''/barry/cosmology'' (round64 (61 / 100)) om_res h0_res
              (round64 (169 / 250)) (round64 (2407 / 50000)) (round64 (97 / 100)))"

definition example_generator :: CambGenerator where
  "example_generator = (default_generator 3 1)\<lparr>data := Some example_table\<rparr>"

definition single_point_generator :: CambGenerator where
  "single_point_generator = (default_generator 1 1)\<lparr>data := Some [[replicate 6001 7]]\<rparr>"

definition fine_table :: table where
  "fine_table = replicate 101 (replicate 6 (replicate 6001 1))"

definition fine_generator :: CambGenerator where
  "fine_generator = (default_generator 101 6)\<lparr>data := Some fine_table\<rparr>"

definition empty_world :: world where
  "empty_world = \<lparr> files = Map.empty, dirs = {}, logged = [] \<rparr>"

definition failing_solver :: camb_solver where
  "failing_solver = (\<lambda>_ _ _ _. Inl ValueError)"

definition fresh_generator :: CambGenerator where
  "fresh_generator = default_generator 3 1"

definition constant_solver :: camb_solver where
  "constant_solver =
     (\<lambda>_ _ _ _. Inr \<lparr> rdrag = 147, pk_lin = [replicate 2000 1, replicate 2000 2],
                        pk_nonlin = [replicate 2000 3, replicate 2000 4] \<rparr>)"

definition example_transform :: PowerToCorrelationGauss where
  "example_transform = projr (PowerToCorrelationGauss_init ln exp [1, 2] 1 0.25)"



section \<open>Rounding\<close>

lemma round64_zero: "round64 0 = 0"
  by (simp add: round64_def)

lemma fl64_zero: "fl64 0 = Finite 0"
  by (simp add: fl64_def round64_zero)

lemma binade_eval:
  assumes "2 powi e \<le> \<bar>x\<bar>" "\<bar>x\<bar> < 2 powi (e + 1)" "- 1022 \<le> e"
  shows "binade x = e"
proof -
  have pos: "0 < \<bar>x\<bar>"
    using assms(1) by (smt (verit) zero_less_power_int)
  have "2 powr (of_int e) \<le> \<bar>x\<bar>"
    using assms(1) by (simp add: powr_real_of_int')
  moreover have "\<bar>x\<bar> < 2 powr (of_int e + 1)"
    using assms(2) powr_real_of_int' [of 2 "e + 1"] by simp
  ultimately have "\<lfloor>log 2 \<bar>x\<bar>\<rfloor> = e"
    using pos floor_log_eq_powr_iff [of "\<bar>x\<bar>" 2 e] by simp
  then show ?thesis
    using assms(3) by (simp add: binade_def)
qed

text \<open>
  The rounding of a number whose binade is known: how the rounded values of the sample
  inputs are computed.
\<close>

lemma round64_eval:
  assumes "2 powi e \<le> \<bar>x\<bar>" "\<bar>x\<bar> < 2 powi (e + 1)" "- 1022 \<le> e"
    and "round_even (x * 2 powi (52 - e)) = m"
  shows "round64 x = of_int m * 2 powi (e - 52)"
proof -
  have "x \<noteq> 0"
    using assms(1) by (smt (verit) zero_less_power_int)
  then show ?thesis
    using binade_eval [OF assms(1-3)] assms(4) by (simp add: round64_def)
qed

lemma fl64_eval: "round64 x = v \<Longrightarrow> \<bar>v\<bar> < 2 ^ 1024 \<Longrightarrow> fl64 x = Finite v"
  by (simp add: fl64_def)




section \<open>Lists, indices and grids\<close>

lemma length_linspace: "length (linspace a b n) = n"
  by (simp add: linspace_def Let_def)

lemma py_get_empty: "py_get [] i = Inl IndexError"
  by (simp add: py_get_def)

lemma h0_index_one: "h0_resolution g = 1 \<Longrightarrow> h0_index g hq = Inr (Finite 0)"
  by (simp add: h0_index_def)

lemma py_get_char:
  "py_get xs i = (if - int (length xs) \<le> i \<and> i < int (length xs) then Inr (xs ! wrap (length xs) i)
                  else Inl IndexError)"
  by (auto simp add: py_get_def wrap_def Let_def)

lemma table_shape_plane:
  "table_shape g d \<Longrightarrow> n < length d \<Longrightarrow> length (d ! n) = h0_resolution g"
  by (simp add: table_shape_def list_all_length)

lemma table_shape_row:
  "table_shape g d \<Longrightarrow> n < length d \<Longrightarrow> m < length (d ! n) \<Longrightarrow>
   length (d ! n ! m) = 1 + 3 * k_num g"
  by (simp add: table_shape_def list_all_length)

lemma wrap_less: "- int n \<le> i \<Longrightarrow> i < int n \<Longrightarrow> wrap n i < n"
  by (auto simp add: wrap_def)

lemma np_index2_char:
  assumes "table_shape g d"
  shows "np_index2 d i j =
     (if - int (om_resolution g) \<le> i \<and> i < int (om_resolution g) \<and>
         - int (h0_resolution g) \<le> j \<and> j < int (h0_resolution g)
      then Inr (cell d i j) else Inl IndexError)"
proof -
  have len: "length d = om_resolution g"
    using assms by (simp add: table_shape_def)
  show ?thesis
  proof (cases "- int (om_resolution g) \<le> i \<and> i < int (om_resolution g)")
    case True
    then have "wrap (length d) i < length d"
      using len by (simp add: wrap_less)
    then have "length (d ! wrap (length d) i) = h0_resolution g"
      using assms by (rule table_shape_plane [rotated])
    then show ?thesis
      using True len by (simp add: np_index2_def py_get_char cell_def Let_def)
  next
    case False
    then show ?thesis
      using len by (auto simp add: np_index2_def py_get_char)
  qed
qed

lemma cell_length:
  assumes "table_shape g d"
    and "- int (om_resolution g) \<le> i" "i < int (om_resolution g)"
    and "- int (h0_resolution g) \<le> j" "j < int (h0_resolution g)"
  shows "length (cell d i j) = 1 + 3 * k_num g"
proof -
  have len: "length d = om_resolution g"
    using assms(1) by (simp add: table_shape_def)
  have a: "wrap (length d) i < length d"
    using assms(2,3) len by (simp add: wrap_less)
  have b: "length (d ! wrap (length d) i) = h0_resolution g"
    using assms(1) a by (rule table_shape_plane)
  have c: "wrap (h0_resolution g) j < h0_resolution g"
    using assms(4,5) by (simp add: wrap_less)
  show ?thesis
    using table_shape_row [OF assms(1) a] b c by (simp add: cell_def Let_def)
qed

lemma blend_rows:
  assumes "length v2 = length v1" "length v3 = length v1" "length v4 = length v1"
  shows "vadd (vadd (vadd (scale (scale v1 (1 - x)) (1 - y)) (scale (scale v2 x) (1 - y)))
                    (scale (scale v3 y) (1 - x)))
              (scale (scale v4 x) y) = bilinear v1 v2 v3 v4 x y"
  using assms
  by (intro nth_equalityI) (simp_all add: vadd_def scale_def bilinear_def algebra_simps)

lemma blend_rows_1d:
  assumes "length v2 = length v1"
  shows "vadd (scale (scale v1 (1 - x)) 1) (scale (scale v2 x) 1) = bilinear v1 v2 v1 v2 x 0"
  using assms
  by (intro nth_equalityI) (simp_all add: vadd_def scale_def bilinear_def algebra_simps)

lemma py_trunc_of_int: "py_trunc (of_int z) = z"
  by (simp add: py_trunc_def)

lemma py_trunc_zero: "py_trunc 0 = 0"
  by (simp add: py_trunc_def)

lemma frac_Finite: "frac (Finite r) = r - of_int \<lfloor>r\<rfloor>"
  by (simp add: frac_def)

lemma blend_char:
  assumes sh: "table_shape g d"
    and one: "h0_resolution g = 1 \<Longrightarrow> hi = 0"
  shows "blend g d (Finite oi) (Finite hi) =
     (if in_index_range g oi hi
      then Inr (bilinear (cell d \<lfloor>oi\<rfloor> \<lfloor>hi\<rfloor>) (cell d \<lceil>oi\<rceil> \<lfloor>hi\<rfloor>)
                  (cell d \<lfloor>oi\<rfloor> \<lceil>hi\<rceil>) (cell d \<lceil>oi\<rceil> \<lceil>hi\<rceil>)
                  (oi - of_int \<lfloor>oi\<rfloor>) (hi - of_int \<lfloor>hi\<rfloor>))
      else Inl IndexError)"
proof -
  have fc: "\<lfloor>oi\<rfloor> \<le> \<lceil>oi\<rceil>" "\<lfloor>hi\<rfloor> \<le> \<lceil>hi\<rceil>"
    by (simp_all add: floor_le_ceiling)
  show ?thesis
  proof (cases "in_index_range g oi hi")
    case True
    have r: "- int (om_resolution g) \<le> \<lfloor>oi\<rfloor>" "\<lfloor>oi\<rfloor> < int (om_resolution g)"
      "- int (om_resolution g) \<le> \<lceil>oi\<rceil>" "\<lceil>oi\<rceil> < int (om_resolution g)"
      "- int (h0_resolution g) \<le> \<lfloor>hi\<rfloor>" "\<lfloor>hi\<rfloor> < int (h0_resolution g)"
      "- int (h0_resolution g) \<le> \<lceil>hi\<rceil>" "\<lceil>hi\<rceil> < int (h0_resolution g)"
      using True fc unfolding in_index_range_def by linarith+
    have l2: "length (cell d \<lceil>oi\<rceil> \<lfloor>hi\<rfloor>) = length (cell d \<lfloor>oi\<rfloor> \<lfloor>hi\<rfloor>)"
      and l3: "length (cell d \<lfloor>oi\<rfloor> \<lceil>hi\<rceil>) = length (cell d \<lfloor>oi\<rfloor> \<lfloor>hi\<rfloor>)"
      and l4: "length (cell d \<lceil>oi\<rceil> \<lceil>hi\<rceil>) = length (cell d \<lfloor>oi\<rfloor> \<lfloor>hi\<rfloor>)"
      using r by (simp_all add: cell_length [OF sh])
    show ?thesis
    proof (cases "h0_resolution g = 1")
      case True
      then have "hi = 0" by (rule one)
      then show ?thesis
        using \<open>in_index_range g oi hi\<close> r True l2
        by (simp add: blend_def np_index2_char [OF sh] py_trunc_of_int py_trunc_zero frac_Finite
            blend_rows_1d Let_def)
    next
      case False
      then show ?thesis
        using \<open>in_index_range g oi hi\<close> r l2 l3 l4
        by (simp add: blend_def np_index2_char [OF sh] py_trunc_of_int py_trunc_zero frac_Finite
            blend_rows Let_def)
    qed
  next
    case False
    show ?thesis
    proof (cases "h0_resolution g = 1")
      case True
      then have "hi = 0" by (rule one)
      then show ?thesis
        using False True fc
        by (auto simp add: blend_def np_index2_char [OF sh] py_trunc_of_int py_trunc_zero
            in_index_range_def Let_def)
    next
      case one': False
      show ?thesis
        using False one' fc
        by (auto simp add: blend_def np_index2_char [OF sh] py_trunc_of_int py_trunc_zero
            in_index_range_def Let_def)
    qed
  qed
qed

lemma interpolate_char:
  assumes "data g = Some d" "table_shape g d"
    and "omch2_index g q = Inr (Finite oi)" "h0_index g hq = Inr (Finite hi)"
  shows "interpolate g q hq =
     (if in_index_range g oi hi
      then Inr (bilinear (cell d \<lfloor>oi\<rfloor> \<lfloor>hi\<rfloor>) (cell d \<lceil>oi\<rceil> \<lfloor>hi\<rfloor>)
                  (cell d \<lfloor>oi\<rfloor> \<lceil>hi\<rceil>) (cell d \<lceil>oi\<rceil> \<lceil>hi\<rceil>)
                  (oi - of_int \<lfloor>oi\<rfloor>) (hi - of_int \<lfloor>hi\<rfloor>))
      else Inl IndexError)"
proof -
  have "h0_resolution g = 1 \<Longrightarrow> hi = 0"
    using assms(4) by (simp add: h0_index_def)
  from blend_char [OF assms(2) this] show ?thesis
    by (simp add: interpolate_def assms)
qed

lemma interpolate_not_finite:
  assumes "data g = Some d" "h0_index g hq = Inr hi"
  shows "omch2_index g q = Inr Infinity \<Longrightarrow> interpolate g q hq = Inl OverflowError"
    and "omch2_index g q = Inr NaN \<Longrightarrow> interpolate g q hq = Inl ValueError"
  using assms by (simp_all add: interpolate_def blend_def Let_def)

lemma cell_nonneg: "0 \<le> i \<Longrightarrow> 0 \<le> j \<Longrightarrow> cell d i j = d ! nat i ! nat j"
  by (simp add: cell_def wrap_def Let_def)

lemma interpolate_inside:
  assumes "data g = Some d" "table_shape g d"
    and "omch2_index g q = Inr (Finite oi)" "h0_index g hq = Inr (Finite hi)"
    and "0 \<le> \<lfloor>oi\<rfloor>" "\<lceil>oi\<rceil> < int (om_resolution g)"
    and "0 \<le> \<lfloor>hi\<rfloor>" "\<lceil>hi\<rceil> < int (h0_resolution g)"
  shows "interpolate g q hq = Inr (bilinear_at d oi hi)"
proof -
  have c: "0 \<le> \<lceil>oi\<rceil>" "0 \<le> \<lceil>hi\<rceil>"
    using assms(5,7) floor_le_ceiling [of oi] floor_le_ceiling [of hi] by linarith+
  have "in_index_range g oi hi"
    unfolding in_index_range_def using assms(5-8) by (intro conjI) linarith+
  then show ?thesis
    using interpolate_char [OF assms(1-4)] assms(5,7) c
    by (simp add: cell_nonneg bilinear_at_def)
qed

lemma interpolate_above:
  assumes "data g = Some d" "table_shape g d"
    and "omch2_index g q = Inr (Finite oi)" "h0_index g hq = Inr (Finite hi)"
    and "int (om_resolution g) \<le> \<lceil>oi\<rceil> \<or> int (h0_resolution g) \<le> \<lceil>hi\<rceil>"
  shows "interpolate g q hq = Inl IndexError"
proof -
  have "\<not> in_index_range g oi hi"
    using assms(5) by (auto simp add: in_index_range_def)
  then show ?thesis
    using interpolate_char [OF assms(1-4)] by simp
qed

lemma np_index2_length:
  assumes "table_shape g d" "np_index2 d i j = Inr v"
  shows "length v = 1 + 3 * k_num g"
proof -
  from assms have r: "- int (om_resolution g) \<le> i \<and> i < int (om_resolution g) \<and>
      - int (h0_resolution g) \<le> j \<and> j < int (h0_resolution g)" and v: "v = cell d i j"
    by (simp_all add: np_index2_char [OF assms(1)] split: if_splits)
  show ?thesis
    using r unfolding v by (intro cell_length [OF assms(1)]) simp_all
qed

lemma length_vadd: "length (vadd u v) = min (length u) (length v)"
  by (simp add: vadd_def)

lemma length_scale: "length (scale v c) = length v"
  by (simp add: scale_def)

lemma blend_length:
  assumes "table_shape g d" "blend g d oi hi = Inr row"
  shows "length row = 1 + 3 * k_num g"
  using assms(2)
  by (auto simp add: blend_def Let_def length_vadd length_scale np_index2_length [OF assms(1)]
      split: sum.splits if_splits)

lemma interpolate_length:
  assumes "data g = Some d" "table_shape g d" "interpolate g q hq = Inr row"
  shows "length row = 1 + 3 * k_num g"
  using assms(3) blend_length [OF assms(2)]
  by (auto simp add: interpolate_def assms(1) split: sum.splits)

lemma get_data_default_h0: "get_data camb w g om None = get_data camb w g om (Some (h0 g))"
  by (simp add: get_data_def)

lemma get_data_loaded:
  assumes "data g = Some d"
  shows "get_data camb w g om (Some hq) =
     (case interpolate g (omch2_of om (omega_b g) hq) hq of
        Inl e \<Rightarrow> (Inl e, g, w)
      | Inr row \<Rightarrow>
          (case py_get row 0 of
             Inl e \<Rightarrow> (Inl e, g, w)
           | Inr r \<Rightarrow>
               (Inr (r, py_slice row 1 (1 + k_num g), py_slice_from row (1 + 2 * k_num g)), g, w)))"
  using assms by (simp add: get_data_def Let_def)

lemma py_get_first: "xs \<noteq> [] \<Longrightarrow> py_get xs 0 = Inr (xs ! 0)"
  by (simp add: py_get_def)

lemma get_data_row:
  assumes "data g = Some d" "table_shape g d"
    and "interpolate g (omch2_of om (omega_b g) hq) hq = Inr row"
  shows "get_data camb w g om (Some hq) =
     (Inr (row ! 0, py_slice row 1 (1 + k_num g), py_slice_from row (1 + 2 * k_num g)), g, w)"
    and "length (py_slice row 1 (1 + k_num g)) = k_num g"
    and "length (py_slice_from row (1 + 2 * k_num g)) = k_num g"
proof -
  have len: "length row = 1 + 3 * k_num g"
    using assms by (rule interpolate_length)
  then have "row \<noteq> []" by auto
  then show "get_data camb w g om (Some hq) =
     (Inr (row ! 0, py_slice row 1 (1 + k_num g), py_slice_from row (1 + 2 * k_num g)), g, w)"
    using assms(1,3) by (simp add: get_data_loaded py_get_first)
  show "length (py_slice row 1 (1 + k_num g)) = k_num g"
    using len by (simp add: py_slice_def)
  show "length (py_slice_from row (1 + 2 * k_num g)) = k_num g"
    using len by (simp add: py_slice_from_def)
qed


section \<open>Interpolation in the table\<close>

lemma blend_rows_map2:
  "vadd (scale (scale v1 (1 - x)) 1) (scale (scale v2 x) 1) = map2 (\<lambda>a b. (1 - x) * a + x * b) v1 v2"
  by (simp add: vadd_def scale_def zip_map_map algebra_simps split_def)

text \<open>
  Claim C7. When \<open>h0_resolution\<close> is 1, \<^verbatim>\<open>_interpolate\<close> is linear interpolation over the
  \<open>omch2\<close> axis alone: for every table in memory and every query its result, a row or an
  exception, is that of \<open>(1-x) * data[floor][0] + x * data[ceil][0]\<close>, whatever the \<open>h0\<close> of
  the query.
\<close>

theorem interpolate_single_h0_is_1d:
  assumes "h0_resolution g = 1" and "data g = Some d"
  shows "interpolate g q hq = interpolate_1d g d q"
proof (cases "omch2_index g q")
  case (Inl e)
  then show ?thesis
    by (simp add: interpolate_def interpolate_1d_def)
next
  case (Inr oi)
  have "blend g d oi (Finite 0) =
      (case py_int (np_floor oi) of Inl e \<Rightarrow> Inl e | Inr i0 \<Rightarrow>
       case np_index2 d i0 0 of Inl e \<Rightarrow> Inl e | Inr lo \<Rightarrow>
       case py_int (np_ceil oi) of Inl e \<Rightarrow> Inl e | Inr i1 \<Rightarrow>
       case np_index2 d i1 0 of Inl e \<Rightarrow> Inl e | Inr up \<Rightarrow>
         Inr (map2 (\<lambda>a b. (1 - frac oi) * a + frac oi * b) lo up))"
    using assms(1)
    by (simp add: blend_def py_trunc_zero frac_Finite blend_rows_map2 Let_def
        split: sum.splits)
  then show ?thesis
    using assms Inr by (simp add: interpolate_def interpolate_1d_def h0_index_one)
qed


text \<open>
  Claim C1, as amended. \<^verbatim>\<open>_interpolate\<close> clamps nothing and does not extrapolate from the
  edge of the grid: it reads the table at the floor and the ceiling of the fractional indices
  it computed in \<^verbatim>\<open>float64\<close>. With a loaded table of the generated shape: when these lie in
  \<open>0 .. om_resolution - 1\<close> and \<open>0 .. h0_resolution - 1\<close> the result is the bilinear blend of
  the four rows there (floor and ceiling agree on a node); when the ceiling of an index
  reaches the length of its axis (as for \<open>omch2 = 0.35\<close> on a grid of three points, or for
  \<open>h0 = 0.8\<close> on a grid of six), the query raises \<^verbatim>\<open>IndexError\<close>; an index that
  overflowed raises \<^verbatim>\<open>OverflowError\<close> and one that is nan raises \<^verbatim>\<open>ValueError\<close>.
\<close>

theorem interpolate_unclamped:
  assumes "data g = Some d" and "table_shape g d" and "h0_index g hq = Inr (Finite hi)"
  shows "(omch2_index g q = Inr (Finite oi) \<and>
          0 \<le> \<lfloor>oi\<rfloor> \<and> \<lceil>oi\<rceil> < int (om_resolution g) \<and>
          0 \<le> \<lfloor>hi\<rfloor> \<and> \<lceil>hi\<rceil> < int (h0_resolution g) \<longrightarrow>
            interpolate g q hq = Inr (bilinear_at d oi hi)) \<and>
         (omch2_index g q = Inr (Finite oi) \<and>
          (int (om_resolution g) \<le> \<lceil>oi\<rceil> \<or> int (h0_resolution g) \<le> \<lceil>hi\<rceil>) \<longrightarrow>
            interpolate g q hq = Inl IndexError) \<and>
         (omch2_index g q = Inr Infinity \<longrightarrow> interpolate g q hq = Inl OverflowError) \<and>
         (omch2_index g q = Inr NaN \<longrightarrow> interpolate g q hq = Inl ValueError)"
  using interpolate_inside [OF assms(1,2) _ assms(3)] interpolate_above [OF assms(1,2) _ assms(3)]
    interpolate_not_finite [OF assms(1,3)]
  by blast

section \<open>Queries through get_data\<close>

text \<open>
  Claim C2, as amended. \<^verbatim>\<open>get_data(om, None)\<close> is \<^verbatim>\<open>get_data(om, self.h0)\<close>. With a loaded
  table of the generated shape, \<^verbatim>\<open>get_data(om, h0)\<close> computes
  \<open>omch2 = (om - omega_b) * h0 * h0\<close> in \<^verbatim>\<open>float64\<close> and interpolates at it. When the floor
  and the ceiling of the two fractional indices lie in the table, it returns the triple of
  the bilinear blend \<open>row\<close> of the four rows there: channel 0, the slice
  \<open>[1 : 1 + k_num]\<close> and the slice \<open>[1 + 2 * k_num :]\<close>, each of exactly \<open>k_num\<close> values.
  When the ceiling of an index reaches the length of its axis, \<^verbatim>\<open>get_data\<close> raises
  \<^verbatim>\<open>IndexError\<close> and returns no triple.
\<close>

theorem get_data_result:
  "get_data camb w g om None = get_data camb w g om (Some (h0 g)) \<and>
   (data g = Some d \<and> table_shape g d \<and>
    omch2_index g (omch2_of om (omega_b g) hq) = Inr (Finite oi) \<and>
    h0_index g hq = Inr (Finite hi) \<longrightarrow>
      (0 \<le> \<lfloor>oi\<rfloor> \<and> \<lceil>oi\<rceil> < int (om_resolution g) \<and>
       0 \<le> \<lfloor>hi\<rfloor> \<and> \<lceil>hi\<rceil> < int (h0_resolution g) \<longrightarrow>
         get_data camb w g om (Some hq) =
           (Inr (bilinear_at d oi hi ! 0,
                 py_slice (bilinear_at d oi hi) 1 (1 + k_num g),
                 py_slice_from (bilinear_at d oi hi) (1 + 2 * k_num g)), g, w) \<and>
         length (py_slice (bilinear_at d oi hi) 1 (1 + k_num g)) = k_num g \<and>
         length (py_slice_from (bilinear_at d oi hi) (1 + 2 * k_num g)) = k_num g) \<and>
      (int (om_resolution g) \<le> \<lceil>oi\<rceil> \<or> int (h0_resolution g) \<le> \<lceil>hi\<rceil> \<longrightarrow>
         get_data camb w g om (Some hq) = (Inl IndexError, g, w)))"
proof (intro conjI impI)
  show "get_data camb w g om None = get_data camb w g om (Some (h0 g))"
    by (rule get_data_default_h0)
next
  assume a: "data g = Some d \<and> table_shape g d \<and>
    omch2_index g (omch2_of om (omega_b g) hq) = Inr (Finite oi) \<and>
    h0_index g hq = Inr (Finite hi)"
  then have d: "data g = Some d" and sh: "table_shape g d"
    and oi: "omch2_index g (omch2_of om (omega_b g) hq) = Inr (Finite oi)"
    and hi: "h0_index g hq = Inr (Finite hi)"
    by simp_all
  {
    assume r: "0 \<le> \<lfloor>oi\<rfloor> \<and> \<lceil>oi\<rceil> < int (om_resolution g) \<and>
       0 \<le> \<lfloor>hi\<rfloor> \<and> \<lceil>hi\<rceil> < int (h0_resolution g)"
    have row: "interpolate g (omch2_of om (omega_b g) hq) hq = Inr (bilinear_at d oi hi)"
      using r by (intro interpolate_inside [OF d sh oi hi]) simp_all
    show "get_data camb w g om (Some hq) =
           (Inr (bilinear_at d oi hi ! 0,
                 py_slice (bilinear_at d oi hi) 1 (1 + k_num g),
                 py_slice_from (bilinear_at d oi hi) (1 + 2 * k_num g)), g, w)"
      by (rule get_data_row(1) [OF d sh row])
    show "length (py_slice (bilinear_at d oi hi) 1 (1 + k_num g)) = k_num g"
      by (rule get_data_row(2) [OF d sh row])
    show "length (py_slice_from (bilinear_at d oi hi) (1 + 2 * k_num g)) = k_num g"
      by (rule get_data_row(3) [OF d sh row])
  }
  {
    assume r: "int (om_resolution g) \<le> \<lceil>oi\<rceil> \<or> int (h0_resolution g) \<le> \<lceil>hi\<rceil>"
    have "interpolate g (omch2_of om (omega_b g) hq) hq = Inl IndexError"
      by (rule interpolate_above [OF d sh oi hi r])
    then show "get_data camb w g om (Some hq) = (Inl IndexError, g, w)"
      using d by (simp add: get_data_loaded)
  }
qed


section \<open>The floats of the sample inputs\<close>

text \<open>
  The floats nearest to the literals of the sources and of the sample queries, and the
  rounded results of the operations on them, each computed from its binade.
\<close>

lemma float_0_05: "round64 (1 / 20) = 3602879701896397 / 72057594037927936"
  by (rule trans [OF round64_eval [where e = "- 5" and m = "7205759403792794"]])
     (simp_all add: round_even_def power_int_minus)

lemma float_0_3: "round64 (3 / 10) = 5404319552844595 / 18014398509481984"
  by (rule trans [OF round64_eval [where e = "- 2" and m = "5404319552844595"]])
     (simp_all add: round_even_def power_int_minus)

lemma float_0_6: "round64 (3 / 5) = 5404319552844595 / 9007199254740992"
  by (rule trans [OF round64_eval [where e = "- 1" and m = "5404319552844595"]])
     (simp_all add: round_even_def power_int_minus)

lemma float_0_8: "round64 (4 / 5) = 3602879701896397 / 4503599627370496"
  by (rule trans [OF round64_eval [where e = "- 1" and m = "7205759403792794"]])
     (simp_all add: round_even_def power_int_minus)

lemma float_0_61: "round64 (61 / 100) = 5494391545392005 / 9007199254740992"
  by (rule trans [OF round64_eval [where e = "- 1" and m = "5494391545392005"]])
     (simp_all add: round_even_def power_int_minus)

lemma float_0_676: "round64 (169 / 250) = 6088866696204911 / 9007199254740992"
  by (rule trans [OF round64_eval [where e = "- 1" and m = "6088866696204911"]])
     (simp_all add: round_even_def power_int_minus)

lemma float_0_04814: "round64 (2407 / 50000) = 3468852576985851 / 72057594037927936"
  by (rule trans [OF round64_eval [where e = "- 5" and m = "6937705153971702"]])
     (simp_all add: round_even_def power_int_minus)

lemma float_0_97: "round64 (97 / 100) = 4368491638549381 / 4503599627370496"
  by (rule trans [OF round64_eval [where e = "- 1" and m = "8736983277098762"]])
     (simp_all add: round_even_def power_int_minus)

lemma float_0_1: "round64 (1 / 10) = 3602879701896397 / 36028797018963968"
  by (rule trans [OF round64_eval [where e = "- 4" and m = "7205759403792794"]])
     (simp_all add: round_even_def power_int_minus)

lemma float_0_35: "round64 (7 / 20) = 3152519739159347 / 9007199254740992"
  by (rule trans [OF round64_eval [where e = "- 2" and m = "6305039478318694"]])
     (simp_all add: round_even_def power_int_minus)

lemma float_0_31: "round64 (31 / 100) = 5584463537939415 / 18014398509481984"
  by (rule trans [OF round64_eval [where e = "- 2" and m = "5584463537939415"]])
     (simp_all add: round_even_def power_int_minus)

lemma float_0_09814: "round64 (4907 / 50000) = 883966534860281 / 9007199254740992"
  by (rule trans [OF round64_eval [where e = "- 4" and m = "7071732278882248"]])
     (simp_all add: round_even_def power_int_minus)

lemma float_0_69: "round64 (69 / 100) = 1553741871442821 / 2251799813685248"
  by (rule trans [OF round64_eval [where e = "- 1" and m = "6214967485771284"]])
     (simp_all add: round_even_def power_int_minus)

lemma float_0_6899: "round64 (6899 / 10000) = 3107033382922905 / 4503599627370496"
  by (rule trans [OF round64_eval [where e = "- 1" and m = "6214066765845810"]])
     (simp_all add: round_even_def power_int_minus)

lemma float_0_5101: "round64 (5101 / 10000) = 1148643084960845 / 2251799813685248"
  by (rule trans [OF round64_eval [where e = "- 1" and m = "4594572339843380"]])
     (simp_all add: round_even_def power_int_minus)

lemma float_0_5104: "round64 (319 / 625) = 2298637249809901 / 4503599627370496"
  by (rule trans [OF round64_eval [where e = "- 1" and m = "4597274499619802"]])
     (simp_all add: round_even_def power_int_minus)

lemma float_0_05_again: "round64 (3602879701896397 / 72057594037927936) = 3602879701896397 / 72057594037927936"
  by (rule trans [OF round64_eval [where e = "- 5" and m = "7205759403792794"]])
     (simp_all add: round_even_def power_int_minus)

lemma float_0_6_again: "round64 (5404319552844595 / 9007199254740992) = 5404319552844595 / 9007199254740992"
  by (rule trans [OF round64_eval [where e = "- 1" and m = "5404319552844595"]])
     (simp_all add: round_even_def power_int_minus)

lemma float_of_1: "round64 (1) = 1"
  by (rule trans [OF round64_eval [where e = "0" and m = "4503599627370496"]])
     (simp_all add: round_even_def power_int_minus)

lemma float_of_2: "round64 (2) = 2"
  by (rule trans [OF round64_eval [where e = "1" and m = "4503599627370496"]])
     (simp_all add: round_even_def power_int_minus)

lemma float_of_5: "round64 (5) = 5"
  by (rule trans [OF round64_eval [where e = "2" and m = "5629499534213120"]])
     (simp_all add: round_even_def power_int_minus)

lemma float_of_100: "round64 (100) = 100"
  by (rule trans [OF round64_eval [where e = "6" and m = "7036874417766400"]])
     (simp_all add: round_even_def power_int_minus)

lemma product_0_61: "round64 (686798943174000625 / 1125899906842624) = 610"
  by (rule trans [OF round64_eval [where e = "9" and m = "5365616743546880"]])
     (simp_all add: round_even_def power_int_minus)

lemma product_0_676: "round64 (3805541685128069375 / 562949953421312) = 6760"
  by (rule trans [OF round64_eval [where e = "12" and m = "7432698603765760"]])
     (simp_all add: round_even_def power_int_minus)

lemma product_0_04814: "round64 (2168032860616156875 / 4503599627370496) = 8468878361781863 / 17592186044416"
  by (rule trans [OF round64_eval [where e = "8" and m = "8468878361781863"]])
     (simp_all add: round_even_def power_int_minus)

lemma product_0_97: "round64 (546061454818672625 / 562949953421312) = 970"
  by (rule trans [OF round64_eval [where e = "9" and m = "8532210231541760"]])
     (simp_all add: round_even_def power_int_minus)

lemma product_0_69: "round64 (971088669651763125 / 140737488355328) = 7586630231654399 / 1099511627776"
  by (rule trans [OF round64_eval [where e = "12" and m = "7586630231654399"]])
     (simp_all add: round_even_def power_int_minus)

lemma product_0_6899: "round64 (1941895864326815625 / 281474976710656) = 6899"
  by (rule trans [OF round64_eval [where e = "12" and m = "7585530720026624"]])
     (simp_all add: round_even_def power_int_minus)

lemma product_0_5101: "round64 (143580385620105625 / 281474976710656) = 4486887050628301 / 8796093022208"
  by (rule trans [OF round64_eval [where e = "8" and m = "8973774101256602"]])
     (simp_all add: round_even_def power_int_minus)

lemma product_0_5104: "round64 (287329656226237625 / 562949953421312) = 4489525878534963 / 8796093022208"
  by (rule trans [OF round64_eval [where e = "8" and m = "8979051757069926"]])
     (simp_all add: round_even_def power_int_minus)

lemma omch2_span: "round64 (18014398509481983 / 72057594037927936) = 1 / 4"
  by (rule trans [OF round64_eval [where e = "- 3" and m = "9007199254740992"]])
     (simp_all add: round_even_def power_int_minus)

lemma h0_span: "round64 (1801439850948199 / 9007199254740992) = 1801439850948199 / 9007199254740992"
  by (rule trans [OF round64_eval [where e = "- 3" and m = "7205759403792796"]])
     (simp_all add: round_even_def power_int_minus)

lemma omch2_0_1_scaled: "round64 (3602879701896397 / 36028797018963968) = 3602879701896397 / 36028797018963968"
  by (rule trans [OF round64_eval [where e = "- 4" and m = "7205759403792794"]])
     (simp_all add: round_even_def power_int_minus)

lemma omch2_0_1_index: "round64 (3602879701896397 / 9007199254740992) = 3602879701896397 / 9007199254740992"
  by (rule trans [OF round64_eval [where e = "- 2" and m = "7205759403792794"]])
     (simp_all add: round_even_def power_int_minus)

lemma omch2_0_35_difference: "round64 (21617278211378379 / 72057594037927936) = 5404319552844595 / 18014398509481984"
  by (rule trans [OF round64_eval [where e = "- 2" and m = "5404319552844595"]])
     (simp_all add: round_even_def power_int_minus)

lemma omch2_0_35_index: "round64 (5404319552844595 / 2251799813685248) = 5404319552844595 / 2251799813685248"
  by (rule trans [OF round64_eval [where e = "1" and m = "5404319552844595"]])
     (simp_all add: round_even_def power_int_minus)

lemma h0_0_8_scaled: "round64 (9007199254740995 / 9007199254740992) = 2251799813685249 / 2251799813685248"
  by (rule trans [OF round64_eval [where e = "0" and m = "4503599627370498"]])
     (simp_all add: round_even_def power_int_minus)

lemma h0_0_8_index: "round64 (9007199254740996 / 1801439850948199) = 5629499534213121 / 1125899906842624"
  by (rule trans [OF round64_eval [where e = "2" and m = "5629499534213121"]])
     (simp_all add: round_even_def power_int_minus)

lemma om_0_31_minus_ob: "round64 (18869001574771809 / 72057594037927936) = 589656299211619 / 2251799813685248"
  by (rule trans [OF round64_eval [where e = "- 2" and m = "4717250393692952"]])
     (simp_all add: round_even_def power_int_minus)

lemma om_0_31_times_h0: "round64 (3590338602477065047268576060909 / 20282409603651670423947251286016) = 797215316534109 / 4503599627370496"
  by (rule trans [OF round64_eval [where e = "- 3" and m = "6377722532272872"]])
     (simp_all add: round_even_def power_int_minus)

lemma om_0_31_omch2: "round64 (4854137790548992625860184809299 / 40564819207303340847894502572032) = 2155670215908231 / 18014398509481984"
  by (rule trans [OF round64_eval [where e = "- 4" and m = "8622680863632924"]])
     (simp_all add: round_even_def power_int_minus)

lemma om_0_31_difference: "round64 (5019801161736527 / 72057594037927936) = 5019801161736527 / 72057594037927936"
  by (rule trans [OF round64_eval [where e = "- 4" and m = "5019801161736527"]])
     (simp_all add: round_even_def power_int_minus)

lemma om_0_31_scaled: "round64 (5019801161736527 / 36028797018963968) = 5019801161736527 / 36028797018963968"
  by (rule trans [OF round64_eval [where e = "- 3" and m = "5019801161736527"]])
     (simp_all add: round_even_def power_int_minus)

lemma om_0_31_index: "round64 (5019801161736527 / 9007199254740992) = 5019801161736527 / 9007199254740992"
  by (rule trans [OF round64_eval [where e = "- 1" and m = "5019801161736527"]])
     (simp_all add: round_even_def power_int_minus)

lemma om_1_minus_ob: "round64 (68588741460942085 / 72057594037927936) = 8573592682617761 / 9007199254740992"
  by (rule trans [OF round64_eval [where e = "- 1" and m = "8573592682617761"]])
     (simp_all add: round_even_def power_int_minus)

lemma om_1_times_h0: "round64 (52203462952017406501175544024271 / 81129638414606681695789005144064) = 5795748653449607 / 9007199254740992"
  by (rule trans [OF round64_eval [where e = "- 1" and m = "5795748653449607"]])
     (simp_all add: round_even_def power_int_minus)

lemma om_1_omch2: "round64 (35289540955563770228915484419977 / 81129638414606681695789005144064) = 7835852179463869 / 18014398509481984"
  by (rule trans [OF round64_eval [where e = "- 2" and m = "7835852179463869"]])
     (simp_all add: round_even_def power_int_minus)

lemma om_1_difference: "round64 (27740529015959079 / 72057594037927936) = 3467566126994885 / 9007199254740992"
  by (rule trans [OF round64_eval [where e = "- 2" and m = "6935132253989770"]])
     (simp_all add: round_even_def power_int_minus)

lemma om_1_scaled: "round64 (3467566126994885 / 4503599627370496) = 3467566126994885 / 4503599627370496"
  by (rule trans [OF round64_eval [where e = "- 1" and m = "6935132253989770"]])
     (simp_all add: round_even_def power_int_minus)

lemma om_1_index: "round64 (3467566126994885 / 1125899906842624) = 3467566126994885 / 1125899906842624"
  by (rule trans [OF round64_eval [where e = "1" and m = "6935132253989770"]])
     (simp_all add: round_even_def power_int_minus)

lemma float_0_51298375: "round64 (410387 / 800000) = 4620546850694239 / 9007199254740992"
  by (rule trans [OF round64_eval [where e = "- 1" and m = "4620546850694239"]])
     (simp_all add: round_even_def power_int_minus)

lemma om_0_51298375_minus_ob: "round64 (33495522228568061 / 72057594037927936) = 8373880557142015 / 18014398509481984"
  by (rule trans [OF round64_eval [where e = "- 2" and m = "8373880557142015"]])
     (simp_all add: round_even_def power_int_minus)

lemma om_0_51298375_times_h0: "round64 (30170084285431857827517945819955 / 81129638414606681695789005144064) = 1674776111428403 / 4503599627370496"
  by (rule trans [OF round64_eval [where e = "- 2" and m = "6699104445713612"]])
     (simp_all add: round_even_def power_int_minus)

lemma om_0_51298375_omch2: "round64 (6034016857086371565503589163991 / 20282409603651670423947251286016) = 2679641778285445 / 9007199254740992"
  by (rule trans [OF round64_eval [where e = "- 2" and m = "5359283556570890"]])
     (simp_all add: round_even_def power_int_minus)

lemma om_0_51298375_difference: "round64 (17834254524387163 / 72057594037927936) = 4458563631096791 / 18014398509481984"
  by (rule trans [OF round64_eval [where e = "- 3" and m = "8917127262193582"]])
     (simp_all add: round_even_def power_int_minus)

lemma om_0_51298375_scaled: "round64 (111464090777419775 / 4503599627370496) = 99 / 4"
  by (rule trans [OF round64_eval [where e = "4" and m = "6966505673588736"]])
     (simp_all add: round_even_def power_int_minus)

lemma om_0_51298375_index: "round64 (99) = 99"
  by (rule trans [OF round64_eval [where e = "6" and m = "6966505673588736"]])
     (simp_all add: round_even_def power_int_minus)

lemma omch2_step_101: "round64 (1 / 400) = 5764607523034235 / 2305843009213693952"
  by (rule trans [OF round64_eval [where e = "- 9" and m = "5764607523034235"]])
     (simp_all add: round_even_def power_int_minus)

lemma omch2_node_99_offset: "round64 (570696144780389265 / 2305843009213693952) = 4458563631096791 / 18014398509481984"
  by (rule trans [OF round64_eval [where e = "- 3" and m = "8917127262193582"]])
     (simp_all add: round_even_def power_int_minus)

lemma omch2_node_99: "round64 (21437134226283561 / 72057594037927936) = 2679641778285445 / 9007199254740992"
  by (rule trans [OF round64_eval [where e = "- 2" and m = "5359283556570890"]])
     (simp_all add: round_even_def power_int_minus)

lemmas sample_floats =
  float_0_05 float_0_3 float_0_6 float_0_8
  float_0_61 float_0_676 float_0_04814 float_0_97
  float_0_1 float_0_35 float_0_31 float_0_09814
  float_0_69 float_0_6899 float_0_5101 float_0_5104
  float_0_05_again float_0_6_again float_of_1 float_of_2
  float_of_5 float_of_100 product_0_61 product_0_676
  product_0_04814 product_0_97 product_0_69 product_0_6899
  product_0_5101 product_0_5104 omch2_span h0_span
  omch2_0_1_scaled omch2_0_1_index omch2_0_35_difference omch2_0_35_index
  h0_0_8_scaled h0_0_8_index om_0_31_minus_ob om_0_31_times_h0
  om_0_31_omch2 om_0_31_difference om_0_31_scaled om_0_31_index
  om_1_minus_ob om_1_times_h0 om_1_omch2 om_1_difference
  om_1_scaled om_1_index float_0_51298375 om_0_51298375_minus_ob
  om_0_51298375_times_h0 om_0_51298375_omch2 om_0_51298375_difference om_0_51298375_scaled
  om_0_51298375_index omch2_step_101 omch2_node_99_offset omch2_node_99

section \<open>The sample generators\<close>

lemma py_get_linspace_first: "0 < n \<Longrightarrow> py_get (linspace a b n) 0 = Inr (round64 a)"
  by (cases "n = 1")
     (auto simp add: linspace_def py_get_def Let_def nth_append nth_butlast round64_zero
        upt_conv_Cons)

lemma py_get_linspace_last: "2 \<le> n \<Longrightarrow> py_get (linspace a b n) (- 1) = Inr b"
  by (auto simp add: linspace_def py_get_def Let_def nth_append nat_diff_distrib)


lemma init_fields:
  assumes "CambGenerator_init dir z n m h ob s = Inr g"
  shows "om_resolution g = n" "h0_resolution g = m" "h0 g = h" "omega_b g = ob"
    "k_num g = 2000" "data g = None"
    "fingerprint z n m h ob s = Inr (filename_unique g)"
    "filename g = dir @ ''/data/cosmo_'' @ filename_unique g @ ''.npy''"
    "grids g"
  using assms
  by (auto simp add: CambGenerator_init_def Let_def grids_def logspace_def length_linspace
      split: sum.splits)

lemma grids_data_update: "grids (g\<lparr>data := t\<rparr>) = grids g"
  by (simp add: grids_def)

lemma str_int_samples:
  "str_int 610 = ''610''" "str_int 6760 = ''6760''" "str_int 481 = ''481''"
  "str_int 970 = ''970''" "str_int 6899 = ''6899''" "str_int 510 = ''510''"
  "str_nat 101 = ''101''" "str_nat (Suc 0) = ''1''"
  by (simp_all add: str_int_def str_nat.simps digit_char_def)

lemma scaled_int_samples:
  "scaled_int (round64 (61 / 100)) 1000 = Inr 610"
  "scaled_int (round64 (169 / 250)) 10000 = Inr 6760"
  "scaled_int (round64 (2407 / 50000)) 10000 = Inr 481"
  "scaled_int (round64 (97 / 100)) 1000 = Inr 970"
  "scaled_int (round64 (69 / 100)) 10000 = Inr 6899"
  "scaled_int (round64 (6899 / 10000)) 10000 = Inr 6899"
  "scaled_int (round64 (5101 / 10000)) 1000 = Inr 510"
  "scaled_int (round64 (319 / 625)) 1000 = Inr 510"
  by (simp_all add: scaled_int_def fl64_def sample_floats py_trunc_def)

lemma default_fingerprint:
  "fingerprint (round64 (61 / 100)) n m (round64 (169 / 250)) (round64 (2407 / 50000))
     (round64 (97 / 100))
   = Inr (''610_'' @ str_nat n @ ''_'' @ str_nat m @ ''_6760_481_970'')"
  by (simp add: fingerprint_def scaled_int_samples str_int_samples)

lemma default_generator_init:
  "CambGenerator_init ''/barry/cosmology'' (round64 (61 / 100)) n m (round64 (169 / 250))
     (round64 (2407 / 50000)) (round64 (97 / 100)) = Inr (default_generator n m)"
  by (simp add: default_generator_def CambGenerator_init_def default_fingerprint Let_def)

lemmas default_generator_fields = init_fields [OF default_generator_init]

lemma example_generator_facts:
  "grids example_generator" "data example_generator = Some example_table"
  "om_resolution example_generator = 3" "h0_resolution example_generator = 1"
  "k_num example_generator = 2000" "table_shape example_generator example_table"
  "omega_b example_generator = round64 (2407 / 50000)" "h0 example_generator = round64 (169 / 250)"
  by (simp_all add: example_generator_def grids_data_update default_generator_fields
      table_shape_def example_table_def)

lemma single_point_generator_facts:
  "grids single_point_generator" "data single_point_generator = Some [[replicate 6001 7]]"
  "om_resolution single_point_generator = 1" "h0_resolution single_point_generator = 1"
  "k_num single_point_generator = 2000"
  "table_shape single_point_generator [[replicate 6001 7]]"
  "omega_b single_point_generator = round64 (2407 / 50000)"
  "h0 single_point_generator = round64 (169 / 250)"
  by (simp_all add: single_point_generator_def grids_data_update default_generator_fields
      table_shape_def)

lemma fine_generator_facts:
  "grids fine_generator" "data fine_generator = Some fine_table"
  "om_resolution fine_generator = 101" "h0_resolution fine_generator = 6"
  "k_num fine_generator = 2000" "table_shape fine_generator fine_table"
  "omega_b fine_generator = round64 (2407 / 50000)" "h0 fine_generator = round64 (169 / 250)"
  by (simp_all add: fine_generator_def grids_data_update default_generator_fields
      table_shape_def fine_table_def list_all_iff)

text \<open>The fractional indices of the sample generators, as functions of the query.\<close>

lemma example_omch2_index:
  "omch2_index example_generator (Finite q) =
     Inr (np_true_divide (np_mul (Finite 2) (fl64 (q - 3602879701896397 / 72057594037927936))) (Finite (1 / 4)))"
  using example_generator_facts(1)
  by (simp add: omch2_index_def grids_def example_generator_facts(3) py_float_def fl64_def
      sample_floats py_get_linspace_first py_get_linspace_last)

lemma example_h0_index: "h0_index example_generator hq = Inr (Finite 0)"
  by (simp add: h0_index_one example_generator_facts)


lemma fine_omch2_index:
  "omch2_index fine_generator (Finite q) =
     Inr (np_true_divide (np_mul (Finite 100) (fl64 (q - 3602879701896397 / 72057594037927936))) (Finite (1 / 4)))"
  using fine_generator_facts(1)
  by (simp add: omch2_index_def grids_def fine_generator_facts(3) py_float_def fl64_def
      sample_floats py_get_linspace_first py_get_linspace_last)

lemma fine_h0_index:
  "h0_index fine_generator hq =
     Inr (np_true_divide (np_mul (Finite 5) (fl64 (hq - 5404319552844595 / 9007199254740992))) (Finite (1801439850948199 / 9007199254740992)))"
  using fine_generator_facts(1)
  by (simp add: h0_index_def grids_def fine_generator_facts(4) py_float_def fl64_def
      sample_floats py_get_linspace_first py_get_linspace_last)

lemma sample_indices:
  "omch2_index example_generator (Finite (round64 (1 / 10))) = Inr (Finite (3602879701896397 / 9007199254740992))"
  "omch2_index example_generator (Finite (round64 (7 / 20))) = Inr (Finite (5404319552844595 / 2251799813685248))"
  "h0_index fine_generator (round64 (4 / 5)) = Inr (Finite (5629499534213121 / 1125899906842624))"
  "omch2_index fine_generator (Finite (round64 (1 / 20))) = Inr (Finite 0)"
  by (simp_all add: example_omch2_index fine_omch2_index fine_h0_index fl64_def sample_floats
      round64_zero)

lemma sample_omch2:
  "omch2_of (round64 (31 / 100)) (round64 (2407 / 50000)) (round64 (169 / 250)) = Finite (2155670215908231 / 18014398509481984)"
  "omch2_of 1 (round64 (2407 / 50000)) (round64 (169 / 250)) = Finite (7835852179463869 / 18014398509481984)"
  "omch2_of (round64 (4907 / 50000)) (round64 (2407 / 50000)) 1 = Finite (3602879701896397 / 72057594037927936)"
  "omch2_of (round64 (410387 / 800000)) (round64 (2407 / 50000)) (round64 (4 / 5)) = Finite (2679641778285445 / 9007199254740992)"
  by (simp_all add: omch2_of_def fl64_def sample_floats)

lemma sample_query_indices:
  "omch2_index example_generator (Finite (2155670215908231 / 18014398509481984)) = Inr (Finite (5019801161736527 / 9007199254740992))"
  "omch2_index example_generator (Finite (7835852179463869 / 18014398509481984)) = Inr (Finite (3467566126994885 / 1125899906842624))"
  "omch2_index example_generator (Finite (3602879701896397 / 72057594037927936)) = Inr (Finite 0)"
  "omch2_index fine_generator (Finite (2679641778285445 / 9007199254740992)) = Inr (Finite 99)"
  by (simp_all add: example_omch2_index fine_omch2_index fl64_def sample_floats round64_zero)

lemma sample_nodes:
  "omch2s example_generator ! 0 = 3602879701896397 / 72057594037927936"
  "last (omch2s example_generator) = 5404319552844595 / 18014398509481984"
  "omch2s single_point_generator ! 0 = 3602879701896397 / 72057594037927936"
  "omch2s fine_generator ! 99 = 2679641778285445 / 9007199254740992"
  "h0s fine_generator ! 5 = 3602879701896397 / 4503599627370496"
  using example_generator_facts(1) single_point_generator_facts(1) fine_generator_facts(1)
  by (simp_all add: grids_def example_generator_facts(3) single_point_generator_facts(3)
      fine_generator_facts(3,4) linspace_def Let_def nth_append nth_butlast round64_zero
      sample_floats)

section \<open>The theorems on the sample generators\<close>

theorem interpolate_single_h0_is_1d_witness:
  "h0_resolution example_generator = 1 \<and> data example_generator = Some example_table \<and>
   interpolate example_generator (Finite (round64 (1 / 10))) (round64 (7 / 10))
     = interpolate_1d example_generator example_table (Finite (round64 (1 / 10)))"
  using interpolate_single_h0_is_1d
    [of example_generator example_table "Finite (round64 (1 / 10))" "round64 (7 / 10)"]
  by (simp add: example_generator_facts)

text \<open>
  On the generator with three \<open>omch2\<close> points: the query \<open>omch2 = 0.1\<close> has the index 0.4
  and is the blend of the rows 0 and 1; the query \<open>omch2 = 0.35\<close>, above the grid, has the
  index 2.4 and raises. On the generator with six \<open>h0\<close> points: the query at the last node
  \<open>h0 = 0.8\<close> has the index 5.000000000000001 and raises.
\<close>

theorem interpolate_unclamped_witness:
  "data example_generator = Some example_table \<and>
   table_shape example_generator example_table \<and>
   h0_index example_generator (round64 (169 / 250)) = Inr (Finite 0) \<and>
   omch2_index example_generator (Finite (round64 (1 / 10))) = Inr (Finite (3602879701896397 / 9007199254740992)) \<and>
   interpolate example_generator (Finite (round64 (1 / 10))) (round64 (169 / 250))
     = Inr (bilinear_at example_table (3602879701896397 / 9007199254740992) 0) \<and>
   omch2_index example_generator (Finite (round64 (7 / 20))) = Inr (Finite (5404319552844595 / 2251799813685248)) \<and>
   interpolate example_generator (Finite (round64 (7 / 20))) (round64 (169 / 250))
     = Inl IndexError \<and>
   data fine_generator = Some fine_table \<and> table_shape fine_generator fine_table \<and>
   h0_index fine_generator (round64 (4 / 5)) = Inr (Finite (5629499534213121 / 1125899906842624)) \<and>
   omch2_index fine_generator (Finite (round64 (1 / 20))) = Inr (Finite 0) \<and>
   interpolate fine_generator (Finite (round64 (1 / 20))) (round64 (4 / 5)) = Inl IndexError"
proof -
  note a = interpolate_unclamped [OF example_generator_facts(2,6) example_h0_index,
      where hq = "round64 (169 / 250)" and q = "Finite (round64 (1 / 10))" and oi = "3602879701896397 / 9007199254740992"]
  note b = interpolate_unclamped [OF example_generator_facts(2,6) example_h0_index,
      where hq = "round64 (169 / 250)" and q = "Finite (round64 (7 / 20))" and oi = "5404319552844595 / 2251799813685248"]
  note c = interpolate_unclamped [OF fine_generator_facts(2,6) sample_indices(3),
      where q = "Finite (round64 (1 / 20))" and oi = 0]
  have 1: "interpolate example_generator (Finite (round64 (1 / 10))) (round64 (169 / 250))
     = Inr (bilinear_at example_table (3602879701896397 / 9007199254740992) 0)"
    using a by (simp add: sample_indices example_generator_facts)
  have 2: "interpolate example_generator (Finite (round64 (7 / 20))) (round64 (169 / 250))
     = Inl IndexError"
    using b by (simp add: sample_indices example_generator_facts)
  have 3: "interpolate fine_generator (Finite (round64 (1 / 20))) (round64 (4 / 5)) = Inl IndexError"
    using c by (simp add: sample_indices fine_generator_facts)
  show ?thesis
    using 1 2 3
    by (simp add: sample_indices example_generator_facts fine_generator_facts example_h0_index)
qed

text \<open>
  Claim C1 as stated fails: \<open>omch2 = 0.35\<close> lies above the grid, whose last point is 0.3,
  and the query raises \<^verbatim>\<open>IndexError\<close>.
\<close>

theorem interpolate_above_grid_counterexample:
  "last (omch2s example_generator) < round64 (7 / 20) \<and>
   interpolate example_generator (Finite (round64 (7 / 20))) (round64 (169 / 250))
     = Inl IndexError"
proof -
  have "interpolate example_generator (Finite (round64 (7 / 20))) (round64 (169 / 250))
     = Inl IndexError"
    by (rule interpolate_above [OF example_generator_facts(2,6) sample_indices(2) example_h0_index])
       (simp add: example_generator_facts)
  then show ?thesis
    by (simp add: sample_nodes sample_floats)
qed

text \<open>
  On the generator with three \<open>omch2\<close> points, \<^verbatim>\<open>get_data(0.31)\<close> has the index
  0.5573098828800002 and returns the triple of the blend of the rows 0 and 1.
\<close>

theorem get_data_result_witness:
  "data example_generator = Some example_table \<and>
   table_shape example_generator example_table \<and>
   omch2_index example_generator
      (omch2_of (round64 (31 / 100)) (omega_b example_generator) (h0 example_generator))
     = Inr (Finite (5019801161736527 / 9007199254740992)) \<and>
   h0_index example_generator (h0 example_generator) = Inr (Finite 0) \<and>
   get_data failing_solver empty_world example_generator (round64 (31 / 100)) None =
     (Inr (bilinear_at example_table (5019801161736527 / 9007199254740992) 0 ! 0,
           py_slice (bilinear_at example_table (5019801161736527 / 9007199254740992) 0) 1 2001,
           py_slice_from (bilinear_at example_table (5019801161736527 / 9007199254740992) 0) 4001),
      example_generator, empty_world) \<and>
   length (py_slice (bilinear_at example_table (5019801161736527 / 9007199254740992) 0) 1 2001) = 2000 \<and>
   length (py_slice_from (bilinear_at example_table (5019801161736527 / 9007199254740992) 0) 4001) = 2000"
proof -
  have oi: "omch2_index example_generator
      (omch2_of (round64 (31 / 100)) (omega_b example_generator) (h0 example_generator))
     = Inr (Finite (5019801161736527 / 9007199254740992))"
    by (simp add: example_generator_facts sample_omch2 sample_query_indices)
  note inst = get_data_result [of failing_solver empty_world example_generator
      "round64 (31 / 100)" example_table "h0 example_generator" "5019801161736527 / 9007199254740992" 0]
  show ?thesis
    using inst oi by (simp add: example_generator_facts example_h0_index)
qed

text \<open>
  Claim C2 as stated fails: on the same generator \<^verbatim>\<open>get_data(1.0)\<close> derives
  \<open>omch2 = 0.43497\<close>, above the grid, and raises \<^verbatim>\<open>IndexError\<close> instead of returning a
  triple.
\<close>

theorem get_data_above_grid_counterexample:
  "get_data failing_solver empty_world example_generator 1 None
     = (Inl IndexError, example_generator, empty_world)"
proof -
  have oi: "omch2_index example_generator
      (omch2_of 1 (omega_b example_generator) (h0 example_generator)) = Inr (Finite (3467566126994885 / 1125899906842624))"
    by (simp add: example_generator_facts sample_omch2 sample_query_indices)
  have "interpolate example_generator
      (omch2_of 1 (omega_b example_generator) (h0 example_generator)) (h0 example_generator)
     = Inl IndexError"
    by (rule interpolate_above [OF example_generator_facts(2,6) oi example_h0_index])
       (simp add: example_generator_facts)
  then show ?thesis
    by (simp add: get_data_default_h0 get_data_loaded [OF example_generator_facts(2)])
qed



section \<open>Loading and generating the table\<close>

lemma emap_succeeds:
  assumes "\<And>x. \<exists>y. f x = Inr y"
  shows "\<exists>ys. emap f xs = Inr ys"
proof (induction xs)
  case Nil
  show ?case by simp
next
  case (Cons x xs)
  from assms obtain y where "f x = Inr y" by blast
  moreover from Cons obtain ys where "emap f xs = Inr ys" by blast
  ultimately show ?case by simp
qed

lemma generate_data_succeeds:
  assumes "solver_succeeds camb g"
  shows "\<exists>d w'. generate_data camb w g = (Inr d, w') \<and> files w' (filename g) = Some d"
proof -
  have cell: "\<And>omch2 h. \<exists>row.
      (case camb g (h * 100) omch2 (omega_b g * h * h) of Inl e \<Rightarrow> Inl e
       | Inr r \<Rightarrow> cell_row (k_num g) r) = Inr row"
  proof -
    fix omch2 h
    from assms obtain r row where
      "camb g (h * 100) omch2 (omega_b g * h * h) = Inr r" "cell_row (k_num g) r = Inr row"
      unfolding solver_succeeds_def by blast
    then show "\<exists>row.
      (case camb g (h * 100) omch2 (omega_b g * h * h) of Inl e \<Rightarrow> Inl e
       | Inr r \<Rightarrow> cell_row (k_num g) r) = Inr row"
      by simp
  qed
  have "\<And>omch2. \<exists>plane. emap (\<lambda>h.
      case camb g (h * 100) omch2 (omega_b g * h * h) of Inl e \<Rightarrow> Inl e
      | Inr r \<Rightarrow> cell_row (k_num g) r) (h0s g) = Inr plane"
    by (rule emap_succeeds) (rule cell)
  then obtain d where "emap (\<lambda>omch2. emap (\<lambda>h.
      case camb g (h * 100) omch2 (omega_b g * h * h) of Inl e \<Rightarrow> Inl e
      | Inr r \<Rightarrow> cell_row (k_num g) r) (h0s g)) (omch2s g) = Inr d"
    using emap_succeeds [of "\<lambda>omch2. emap (\<lambda>h.
      case camb g (h * 100) omch2 (omega_b g * h * h) of Inl e \<Rightarrow> Inl e
      | Inr r \<Rightarrow> cell_row (k_num g) r) (h0s g)" "omch2s g"] by blast
  then show ?thesis
    by (simp add: generate_data_def Let_def)
qed

text \<open>
  Claim C5. The cache file is absent. \<^verbatim>\<open>load_data(can_generate=False)\<close> raises (the
  \<^verbatim>\<open>ValueError\<close> with the message that the data does not exist), the generator is as before,
  its table still unset, no file is written and nothing of the generation is logged or
  called: the outcome does not depend on the solver. \<^verbatim>\<open>load_data(can_generate=True)\<close>, with a
  solver that succeeds on every cell, generates the table, saves it under the file name of
  the generator and installs it.
\<close>

theorem load_data_cache_miss:
  assumes "files w (filename g) = None"
  shows "load_data camb w g False
           = (Inl ValueError, g, w\<lparr>logged := logged w @ [Error_data_does_not_exist]\<rparr>) \<and>
         (solver_succeeds camb g \<longrightarrow>
            (\<exists>d w'. generate_data camb w g = (Inr d, w') \<and>
                     load_data camb w g True = (Inr (), g\<lparr>data := Some d\<rparr>, w') \<and>
                     files w' (filename g) = Some d))"
proof (intro conjI impI)
  show "load_data camb w g False
           = (Inl ValueError, g, w\<lparr>logged := logged w @ [Error_data_does_not_exist]\<rparr>)"
    using assms by (simp add: load_data_def)
next
  assume "solver_succeeds camb g"
  then obtain d w' where "generate_data camb w g = (Inr d, w')" "files w' (filename g) = Some d"
    using generate_data_succeeds by blast
  then show "\<exists>d w'. generate_data camb w g = (Inr d, w') \<and>
                     load_data camb w g True = (Inr (), g\<lparr>data := Some d\<rparr>, w') \<and>
                     files w' (filename g) = Some d"
    using assms by (simp add: load_data_def)
qed

lemma constant_solver_succeeds: "solver_succeeds constant_solver fresh_generator"
  by (simp add: solver_succeeds_def constant_solver_def cell_row_def py_get_def np_assign_def
      fresh_generator_def default_generator_fields)

theorem load_data_cache_miss_witness:
  "files empty_world (filename fresh_generator) = None \<and>
   load_data constant_solver empty_world fresh_generator False
     = (Inl ValueError, fresh_generator,
        empty_world\<lparr>logged := logged empty_world @ [Error_data_does_not_exist]\<rparr>) \<and>
   data fresh_generator = None \<and>
   solver_succeeds constant_solver fresh_generator \<and>
   (\<exists>d w'. generate_data constant_solver empty_world fresh_generator = (Inr d, w') \<and>
            load_data constant_solver empty_world fresh_generator True
              = (Inr (), fresh_generator\<lparr>data := Some d\<rparr>, w') \<and>
            files w' (filename fresh_generator) = Some d)"
  using load_data_cache_miss [of empty_world fresh_generator constant_solver]
    constant_solver_succeeds
  by (simp add: empty_world_def fresh_generator_def default_generator_fields)

lemma emap_list_all2: "emap f xs = Inr ys \<Longrightarrow> list_all2 (\<lambda>x y. f x = Inr y) xs ys"
  by (induction xs arbitrary: ys) (auto split: sum.splits)

lemma np_assign_length: "np_assign n src = Inr v \<Longrightarrow> length v = n"
  by (auto simp add: np_assign_def split: if_splits)

lemma cell_row_length: "cell_row k r = Inr row \<Longrightarrow> length row = 1 + 3 * k"
  by (auto simp add: cell_row_def split: sum.splits dest!: np_assign_length)

lemma generate_data_shape:
  assumes "generate_data camb w g = (Inr d, w')" "grids g"
  shows "table_shape g d"
proof -
  let ?cell = "\<lambda>omch2 h. case camb g (h * 100) omch2 (omega_b g * h * h) of Inl e \<Rightarrow> Inl e
      | Inr r \<Rightarrow> cell_row (k_num g) r"
  from assms(1) have "emap (\<lambda>omch2. emap (?cell omch2) (h0s g)) (omch2s g) = Inr d"
    by (auto simp add: generate_data_def Let_def split: sum.splits)
  then have planes: "list_all2 (\<lambda>omch2 plane. emap (?cell omch2) (h0s g) = Inr plane) (omch2s g) d"
    by (rule emap_list_all2)
  have lens: "length (omch2s g) = om_resolution g" "length (h0s g) = h0_resolution g"
    using assms(2) by (auto simp add: grids_def length_linspace)
  have "length d = om_resolution g"
    using planes lens by (simp add: list_all2_lengthD [symmetric])
  moreover have "length plane = h0_resolution g \<and>
      list_all (\<lambda>row. length row = 1 + 3 * k_num g) plane" if "plane \<in> set d" for plane
  proof -
    from that planes obtain omch2 where "emap (?cell omch2) (h0s g) = Inr plane"
      by (auto simp add: list_all2_conv_all_nth in_set_conv_nth)
    then have rows: "list_all2 (\<lambda>h row. ?cell omch2 h = Inr row) (h0s g) plane"
      by (rule emap_list_all2)
    then have "length plane = h0_resolution g"
      using lens by (simp add: list_all2_lengthD [symmetric])
    moreover have "length row = 1 + 3 * k_num g" if "row \<in> set plane" for row
    proof -
      from that rows obtain h where "?cell omch2 h = Inr row"
        by (auto simp add: list_all2_conv_all_nth in_set_conv_nth)
      then show ?thesis
        by (auto split: sum.splits dest: cell_row_length)
    qed
    ultimately show ?thesis
      by (simp add: list_all_iff)
  qed
  ultimately show ?thesis
    by (simp add: table_shape_def list_all_iff)
qed

section \<open>The cache fingerprint\<close>

lemma digit_char_code: "d < 10 \<Longrightarrow> (of_char (digit_char d) :: nat) = 48 + d"
proof -
  assume "d < 10"
  then have "d = 0 \<or> d = 1 \<or> d = 2 \<or> d = 3 \<or> d = 4 \<or> d = 5 \<or> d = 6 \<or> d = 7 \<or> d = 8 \<or> d = 9"
    by arith
  then show ?thesis
    by (elim disjE) (simp_all add: digit_char_def)
qed

lemma digit_char_inj: "a < 10 \<Longrightarrow> b < 10 \<Longrightarrow> digit_char a = digit_char b \<Longrightarrow> a = b"
  by (metis digit_char_code add_left_cancel)

lemma digit_char_not_sep: "d < 10 \<Longrightarrow> digit_char d \<noteq> CHR ''_'' \<and> digit_char d \<noteq> CHR ''-''"
proof -
  assume "d < 10"
  then have "d = 0 \<or> d = 1 \<or> d = 2 \<or> d = 3 \<or> d = 4 \<or> d = 5 \<or> d = 6 \<or> d = 7 \<or> d = 8 \<or> d = 9"
    by arith
  then show ?thesis
    by (elim disjE) (simp_all add: digit_char_def)
qed

lemma str_nat_nonempty: "str_nat n \<noteq> []"
  by (subst str_nat.simps) simp

lemma str_nat_chars: "c \<in> set (str_nat n) \<Longrightarrow> c \<noteq> CHR ''_'' \<and> c \<noteq> CHR ''-''"
proof (induction n rule: str_nat.induct)
  case (1 n)
  show ?case
  proof (cases "n < 10")
    case True
    with "1.prems" show ?thesis
      by (subst (asm) str_nat.simps) (simp add: digit_char_not_sep)
  next
    case False
    with "1.prems" have "c \<in> set (str_nat (n div 10)) \<or> c = digit_char (n mod 10)"
      by (subst (asm) str_nat.simps) auto
    with False "1.IH" show ?thesis
      using digit_char_not_sep [of "n mod 10"] by auto
  qed
qed

lemma str_nat_inj: "str_nat n = str_nat m \<Longrightarrow> n = m"
proof (induction n arbitrary: m rule: str_nat.induct)
  case (1 n)
  show ?case
  proof (cases "n < 10")
    case n: True
    show ?thesis
    proof (cases "m < 10")
      case True
      with n "1.prems" show ?thesis
        by (simp add: str_nat.simps [of n] str_nat.simps [of m] digit_char_inj)
    next
      case False
      with n "1.prems" show ?thesis
        using str_nat_nonempty [of "m div 10"]
        by (simp add: str_nat.simps [of n] str_nat.simps [of m])
    qed
  next
    case n: False
    show ?thesis
    proof (cases "m < 10")
      case True
      with n "1.prems" show ?thesis
        using str_nat_nonempty [of "n div 10"]
        by (simp add: str_nat.simps [of n] str_nat.simps [of m])
    next
      case False
      with n "1.prems" have "str_nat (n div 10) = str_nat (m div 10)"
        and d: "digit_char (n mod 10) = digit_char (m mod 10)"
        by (simp_all add: str_nat.simps [of n] str_nat.simps [of m])
      with n "1.IH" have "n div 10 = m div 10" by simp
      moreover from d have "n mod 10 = m mod 10"
        by (intro digit_char_inj) simp_all
      ultimately show ?thesis
        by (metis div_mult_mod_eq)
    qed
  qed
qed

lemma str_int_inj: "str_int i = str_int j \<Longrightarrow> i = j"
proof -
  assume eq: "str_int i = str_int j"
  have hd_digit: "hd (str_nat n) \<noteq> CHR ''-''" for n
    using str_nat_chars [of "hd (str_nat n)" n] str_nat_nonempty [of n] by simp
  show ?thesis
  proof (cases "i < 0")
    case i: True
    show ?thesis
    proof (cases "j < 0")
      case True
      with i eq have "nat (- i) = nat (- j)"
        by (simp add: str_int_def str_nat_inj)
      with i True show ?thesis by simp
    next
      case False
      with i eq have "hd (str_nat (nat j)) = CHR ''-''"
        by (simp add: str_int_def) (metis list.sel(1))
      with hd_digit show ?thesis by simp
    qed
  next
    case i: False
    show ?thesis
    proof (cases "j < 0")
      case True
      with i eq have "hd (str_nat (nat i)) = CHR ''-''"
        by (simp add: str_int_def)
      with hd_digit show ?thesis by simp
    next
      case False
      with i eq have "nat i = nat j"
        by (simp add: str_int_def str_nat_inj)
      with i False show ?thesis by simp
    qed
  qed
qed

lemma str_int_no_sep: "CHR ''_'' \<notin> set (str_int i)"
  using str_nat_chars by (auto simp add: str_int_def)

lemma str_nat_no_sep: "CHR ''_'' \<notin> set (str_nat n)"
  using str_nat_chars by auto

lemma field_split:
  assumes "CHR ''_'' \<notin> set a" "CHR ''_'' \<notin> set b" "a @ CHR ''_'' # r = b @ CHR ''_'' # t"
  shows "a = b \<and> r = t"
proof -
  have "takeWhile (\<lambda>c. c \<noteq> CHR ''_'') (a @ CHR ''_'' # r) = a"
    using assms(1) by (subst takeWhile_append2) auto
  moreover have "takeWhile (\<lambda>c. c \<noteq> CHR ''_'') (b @ CHR ''_'' # t) = b"
    using assms(2) by (subst takeWhile_append2) auto
  ultimately have "a = b" using assms(3) by simp
  with assms(3) show ?thesis by simp
qed

lemma rendered_eq_iff:
  "str_int a @ ''_'' @ str_nat n @ ''_'' @ str_nat m @ ''_'' @ str_int b @ ''_'' @ str_int c @ ''_'' @ str_int e
     = str_int a' @ ''_'' @ str_nat n' @ ''_'' @ str_nat m' @ ''_'' @ str_int b' @ ''_'' @ str_int c' @ ''_'' @ str_int e' \<longleftrightarrow>
     a = a' \<and> n = n' \<and> m = m' \<and>
     b = b' \<and>
     c = c' \<and>
     e = e'"
proof
  assume eq: "str_int a @ ''_'' @ str_nat n @ ''_'' @ str_nat m @ ''_'' @ str_int b @ ''_'' @ str_int c @ ''_'' @ str_int e
     = str_int a' @ ''_'' @ str_nat n' @ ''_'' @ str_nat m' @ ''_'' @ str_int b' @ ''_'' @ str_int c' @ ''_'' @ str_int e'"
  note sep = str_int_no_sep str_nat_no_sep
  from eq have 1: "str_int (a) = str_int (a')"
    and r1: "str_nat n @ ''_'' @ str_nat m @ ''_'' @ str_int (b) @ ''_'' @
             str_int (c) @ ''_'' @ str_int (e)
           = str_nat n' @ ''_'' @ str_nat m' @ ''_'' @ str_int (b') @ ''_'' @
             str_int (c') @ ''_'' @ str_int (e')"
    using field_split [OF sep(1) sep(1)] by simp_all
  from r1 have 2: "str_nat n = str_nat n'"
    and r2: "str_nat m @ ''_'' @ str_int (b) @ ''_'' @
             str_int (c) @ ''_'' @ str_int (e)
           = str_nat m' @ ''_'' @ str_int (b') @ ''_'' @
             str_int (c') @ ''_'' @ str_int (e')"
    using field_split [OF sep(2) sep(2)] by simp_all
  from r2 have 3: "str_nat m = str_nat m'"
    and r3: "str_int (b) @ ''_'' @
             str_int (c) @ ''_'' @ str_int (e)
           = str_int (b') @ ''_'' @
             str_int (c') @ ''_'' @ str_int (e')"
    using field_split [OF sep(2) sep(2)] by simp_all
  from r3 have 4: "str_int (b) = str_int (b')"
    and r4: "str_int (c) @ ''_'' @ str_int (e)
           = str_int (c') @ ''_'' @ str_int (e')"
    using field_split [OF sep(1) sep(1)] by simp_all
  from r4 have 5: "str_int (c) = str_int (c')"
    and 6: "str_int (e) = str_int (e')"
    using field_split [OF sep(1) sep(1)] by simp_all
  from 1 2 3 4 5 6 show "a = a' \<and> n = n' \<and> m = m' \<and>
     b = b' \<and>
     c = c' \<and>
     e = e'"
    by (simp add: str_int_inj str_nat_inj)
next
  assume "a = a' \<and> n = n' \<and> m = m' \<and>
     b = b' \<and>
     c = c' \<and>
     e = e'"
  then show "str_int a @ ''_'' @ str_nat n @ ''_'' @ str_nat m @ ''_'' @ str_int b @ ''_'' @ str_int c @ ''_'' @ str_int e
     = str_int a' @ ''_'' @ str_nat n' @ ''_'' @ str_nat m' @ ''_'' @ str_int b' @ ''_'' @ str_int c' @ ''_'' @ str_int e'"
    by simp
qed


lemma fingerprint_eq_iff:
  assumes "fingerprint z n m h ob s = Inr f" "fingerprint z' n' m' h' ob' s' = Inr f'"
  shows "f = f' \<longleftrightarrow>
     scaled_int z 1000 = scaled_int z' 1000 \<and> n = n' \<and> m = m' \<and>
     scaled_int h 10000 = scaled_int h' 10000 \<and>
     scaled_int ob 10000 = scaled_int ob' 10000 \<and>
     scaled_int s 1000 = scaled_int s' 1000"
proof -
  from assms(1) obtain a b c e where
    1: "scaled_int z 1000 = Inr a" "scaled_int h 10000 = Inr b" "scaled_int ob 10000 = Inr c"
       "scaled_int s 1000 = Inr e"
    and f: "f = str_int a @ ''_'' @ str_nat n @ ''_'' @ str_nat m @ ''_'' @ str_int b @ ''_'' @
                str_int c @ ''_'' @ str_int e"
    by (auto simp add: fingerprint_def split: sum.splits)
  from assms(2) obtain a' b' c' e' where
    2: "scaled_int z' 1000 = Inr a'" "scaled_int h' 10000 = Inr b'" "scaled_int ob' 10000 = Inr c'"
       "scaled_int s' 1000 = Inr e'"
    and f': "f' = str_int a' @ ''_'' @ str_nat n' @ ''_'' @ str_nat m' @ ''_'' @ str_int b' @ ''_'' @
                str_int c' @ ''_'' @ str_int e'"
    by (auto simp add: fingerprint_def split: sum.splits)
  show ?thesis
    unfolding f f' 1 2 rendered_eq_iff by auto
qed

lemma init_succeeds:
  "fingerprint z n m h ob s = Inr f \<Longrightarrow> \<exists>g. CambGenerator_init dir z n m h ob s = Inr g"
  by (simp add: CambGenerator_init_def Let_def)

text \<open>
  Claim C4, as amended. Two generators have the same fingerprint string exactly when their
  encoded fields agree: the two resolutions and the integers \<^verbatim>\<open>int(redshift * 1000)\<close>,
  \<^verbatim>\<open>int(h0 * 10000)\<close>, \<^verbatim>\<open>int(ob * 10000)\<close> and \<^verbatim>\<open>int(ns * 1000)\<close>, each the truncation of a
  \<^verbatim>\<open>float64\<close> product. Identical arguments give identical fingerprints; a differing field
  gives a different one exactly when its encoding differs. With the same module directory
  the cache file names agree exactly when the fingerprints do.
\<close>

theorem fingerprint_encoded_fields:
  assumes "CambGenerator_init dir z n m h ob s = Inr g"
    and "CambGenerator_init dir' z' n' m' h' ob' s' = Inr g'"
  shows "(filename_unique g = filename_unique g' \<longleftrightarrow>
            scaled_int z 1000 = scaled_int z' 1000 \<and> n = n' \<and> m = m' \<and>
            scaled_int h 10000 = scaled_int h' 10000 \<and>
            scaled_int ob 10000 = scaled_int ob' 10000 \<and>
            scaled_int s 1000 = scaled_int s' 1000) \<and>
         (dir = dir' \<longrightarrow>
            (filename g = filename g' \<longleftrightarrow> filename_unique g = filename_unique g'))"
  using fingerprint_eq_iff [OF init_fields(7) [OF assms(1)] init_fields(7) [OF assms(2)]]
  by (simp add: init_fields(8) [OF assms(1)] init_fields(8) [OF assms(2)])

text \<open>
  The floats 0.69 and 0.6899 for \<open>h0\<close> differ and so do their exact products with 10000,
  6900 and 6899; the \<^verbatim>\<open>float64\<close> product of 0.69 is 6899.999999999999, so both are encoded
  as 6899 and the two generators share one fingerprint and one cache file.
\<close>

theorem fingerprint_encoded_fields_witness:
  "\<exists>g g'. CambGenerator_init ''/barry/cosmology'' (round64 (61 / 100)) 101 1 (round64 (69 / 100))
             (round64 (2407 / 50000)) (round64 (97 / 100)) = Inr g \<and>
          CambGenerator_init ''/barry/cosmology'' (round64 (61 / 100)) 101 1
             (round64 (6899 / 10000)) (round64 (2407 / 50000)) (round64 (97 / 100)) = Inr g' \<and>
          round64 (69 / 100) \<noteq> round64 (6899 / 10000) \<and>
          scaled_int (round64 (69 / 100)) 10000 = Inr 6899 \<and>
          scaled_int (round64 (6899 / 10000)) 10000 = Inr 6899 \<and>
          filename_unique g = filename_unique g' \<and> filename g = filename g'"
proof -
  obtain g where g: "CambGenerator_init ''/barry/cosmology'' (round64 (61 / 100)) 101 1
      (round64 (69 / 100)) (round64 (2407 / 50000)) (round64 (97 / 100)) = Inr g"
    using init_succeeds by (fastforce simp add: fingerprint_def scaled_int_samples)
  obtain g' where g': "CambGenerator_init ''/barry/cosmology'' (round64 (61 / 100)) 101 1
      (round64 (6899 / 10000)) (round64 (2407 / 50000)) (round64 (97 / 100)) = Inr g'"
    using init_succeeds by (fastforce simp add: fingerprint_def scaled_int_samples)
  have ne: "round64 (69 / 100) \<noteq> round64 (6899 / 10000)"
    by (simp add: sample_floats)
  from fingerprint_encoded_fields [OF g g']
  have "filename_unique g = filename_unique g' \<and> filename g = filename g'"
    by (simp add: scaled_int_samples)
  with g g' ne show ?thesis
    by (auto simp add: scaled_int_samples)
qed

text \<open>
  Claim C4 as stated fails: the redshifts 0.5101 and 0.5104 differ and are both encoded as
  510, so the two generators, equal in every other field, have one fingerprint.
\<close>

theorem fingerprint_collision_counterexample:
  "round64 (5101 / 10000) \<noteq> round64 (319 / 625) \<and>
   map_sum id filename_unique
     (CambGenerator_init ''/barry/cosmology'' (round64 (5101 / 10000)) 101 1 (round64 (169 / 250))
        (round64 (2407 / 50000)) (round64 (97 / 100))) = Inr ''510_101_1_6760_481_970'' \<and>
   map_sum id filename_unique
     (CambGenerator_init ''/barry/cosmology'' (round64 (319 / 625)) 101 1 (round64 (169 / 250))
        (round64 (2407 / 50000)) (round64 (97 / 100))) = Inr ''510_101_1_6760_481_970''"
proof -
  have "round64 (5101 / 10000) \<noteq> round64 (319 / 625)"
    by (simp add: sample_floats)
  then show ?thesis
    by (simp add: CambGenerator_init_def fingerprint_def scaled_int_samples str_int_samples
        Let_def)
qed

section \<open>Model construction\<close>





section \<open>The bounds of the transform\<close>

lemma argsort_entries:
  assumes "p \<in> set (sort_key fst (zip x [0..<length x]))"
  shows "snd p < length x \<and> x ! snd p = fst p"
proof -
  from assms have "p \<in> set (zip x [0..<length x])" by simp
  then obtain i where "i < length x" "p = (x ! i, [0..<length x] ! i)"
    by (auto simp add: set_zip)
  then show ?thesis by simp
qed

lemma argsort_less: "i \<in> set (argsort x) \<Longrightarrow> i < length x"
  using argsort_entries by (auto simp add: argsort_def)

lemma length_argsort: "length (argsort x) = length x"
  by (simp add: argsort_def)

lemma argsort_values: "map (\<lambda>i. x ! i) (argsort x) = map fst (sort_key fst (zip x [0..<length x]))"
  using argsort_entries by (auto simp add: argsort_def)

lemma argsort_sorted: "sorted (map (\<lambda>i. x ! i) (argsort x))"
  by (simp only: argsort_values sorted_sort_key)

lemma argsort_set: "set (map (\<lambda>i. x ! i) (argsort x)) = set x"
proof -
  have "map fst (zip x [0..<length x]) = x"
    by (simp add: map_fst_zip)
  moreover have "set (map fst (sort_key fst (zip x [0..<length x])))
      = set (map fst (zip x [0..<length x]))"
    by (simp only: set_map set_sort)
  ultimately show ?thesis
    by (simp only: argsort_values)
qed

lemma sorted_hd_Min: "sorted xs \<Longrightarrow> xs \<noteq> [] \<Longrightarrow> hd xs = Min (set xs)"
  by (cases xs) (auto intro!: Min_eqI [symmetric])

lemma sorted_le_last: "sorted xs \<Longrightarrow> y \<in> set xs \<Longrightarrow> y \<le> last xs"
  by (induction xs) auto

lemma sorted_last_Max: "sorted xs \<Longrightarrow> xs \<noteq> [] \<Longrightarrow> last xs = Max (set xs)"
  by (rule Max_eqI [symmetric]) (simp_all add: sorted_le_last)

lemma interp1d_bounds:
  assumes "v \<in> set x_new" "v < Min (set x) \<or> Max (set x) < v"
  shows "interp1d x y x_new = Inl ValueError"
proof (cases "length x \<noteq> length y \<or> length x < 2")
  case True
  then show ?thesis by (auto simp add: interp1d_def)
next
  case False
  let ?xs = "map (\<lambda>i. x ! i) (argsort x)"
  from False have "x \<noteq> []" by auto
  moreover have "length ?xs = length x" by (simp add: length_argsort)
  ultimately have ne: "?xs \<noteq> []" by auto
  have "hd ?xs = Min (set x)" "last ?xs = Max (set x)"
    using sorted_hd_Min [OF argsort_sorted ne] sorted_last_Max [OF argsort_sorted ne]
    by (simp_all only: argsort_set)
  with assms have "list_ex (\<lambda>v. v < hd ?xs \<or> last ?xs < v) x_new"
    by (auto simp add: list_ex_iff)
  with False show ?thesis
    by (simp add: interp1d_def Let_def)
qed

text \<open>
  Claim C9. When the input wavenumbers do not cover the dense grid of the instance (their
  minimum is above the grid's minimum or their maximum is below the grid's maximum), the
  call raises \<^verbatim>\<open>ValueError\<close> instead of returning a correlation function: the
  interpolation onto the dense grid checks its bounds.
\<close>

theorem call_outside_span_raises:
  assumes "ks2 self \<noteq> []"
    and "Min (set (ks2 self)) < Min (set k) \<or> Max (set k) < Max (set (ks2 self))"
  shows "PowerToCorrelationGauss_call self k pks ss = Inl ValueError"
proof -
  have "Min (set (ks2 self)) \<in> set (ks2 self)" "Max (set (ks2 self)) \<in> set (ks2 self)"
    using assms(1) by (simp_all add: Min_in Max_in)
  with assms(2) obtain v where "v \<in> set (ks2 self)" "v < Min (set k) \<or> Max (set k) < v"
    by blast
  then have "interp1d k pks (ks2 self) = Inl ValueError"
    by (rule interp1d_bounds)
  then show ?thesis
    by (simp add: PowerToCorrelationGauss_call_def)
qed

lemma linspace_two: "linspace 0 b (Suc (Suc 0)) = [0, b]"
proof -
  have "[0..<Suc (Suc 0)] = [0, Suc 0]" by (simp add: upt_rec)
  then show ?thesis by (simp add: linspace_def Let_def round64_zero)
qed

lemma example_transform_fields:
  "PowerToCorrelationGauss_init ln exp [1, 2] 1 0.25 = Inr example_transform"
  "ks0 example_transform = [1, 2]" "ks2 example_transform = [1, 2]"
  by (simp_all add: example_transform_def PowerToCorrelationGauss_init_def logspace_def
      linspace_two Let_def)

theorem call_outside_span_raises_witness:
  "ks2 example_transform \<noteq> [] \<and>
   Min (set (ks2 example_transform)) < Min (set [1.5, 3::real]) \<and>
   PowerToCorrelationGauss_call example_transform [1.5, 3] [10, 20] [50] = Inl ValueError"
  using call_outside_span_raises [of example_transform "[1.5, 3]" "[10, 20]" "[50]"]
  by (simp add: example_transform_fields)

section \<open>The transform: linearity and the quadrature\<close>

lemma fdiv_scale: "fdiv (c * a - c * b) d = map_option ((*) c) (fdiv (a - b) d)"
  by (simp add: fdiv_def algebra_simps)

lemma fdiv_add: "fdiv (a1 + a2 - (b1 + b2)) d = lift2 (+) (fdiv (a1 - b1) d) (fdiv (a2 - b2) d)"
  by (simp add: fdiv_def lift2_def field_simps)

lemma call_linear_index:
  assumes "2 \<le> length xs"
  shows "min (max (searchsorted xs v) 1) (length xs - 1) < length xs"
    and "min (max (searchsorted xs v) 1) (length xs - 1) - 1 < length xs"
  using assms by auto

lemma call_linear_scale:
  assumes "2 \<le> length xs" "length ys = length xs"
  shows "call_linear xs (map ((*) c) ys) v = map_option ((*) c) (call_linear xs ys v)"
proof -
  let ?i = "min (max (searchsorted xs v) 1) (length xs - 1)"
  have i: "?i < length ys" "?i - 1 < length ys"
    using call_linear_index [OF assms(1), of v] assms(2) by simp_all
  show ?thesis
    using i
    by (simp add: call_linear_def Let_def fdiv_scale option.map_comp comp_def algebra_simps
        del: min_less_iff_conj)
qed

lemma call_linear_add:
  assumes "2 \<le> length xs" "length y1 = length xs" "length y2 = length xs"
  shows "call_linear xs (map2 (+) y1 y2) v = lift2 (+) (call_linear xs y1 v) (call_linear xs y2 v)"
proof -
  let ?i = "min (max (searchsorted xs v) 1) (length xs - 1)"
  have i: "?i < length xs" "?i - 1 < length xs"
    using call_linear_index [OF assms(1), of v] by simp_all
  have nth: "map2 (+) y1 y2 ! ?i = y1 ! ?i + y2 ! ?i"
    "map2 (+) y1 y2 ! (?i - 1) = y1 ! (?i - 1) + y2 ! (?i - 1)"
    using i assms(2,3) by simp_all
  show ?thesis
    unfolding call_linear_def Let_def nth fdiv_add
    by (cases "fdiv (y1 ! ?i - y1 ! (?i - 1)) (xs ! ?i - xs ! (?i - 1))";
        cases "fdiv (y2 ! ?i - y2 ! (?i - 1)) (xs ! ?i - xs ! (?i - 1))")
      (simp_all add: lift2_def algebra_simps)
qed

lemma argsort_take_scale:
  assumes "length y = length x"
  shows "map (\<lambda>i. map ((*) c) y ! i) (argsort x) = map ((*) c) (map (\<lambda>i. y ! i) (argsort x))"
  using assms argsort_less [of _ x] by simp

lemma argsort_take_add:
  assumes "length y1 = length x" "length y2 = length x"
  shows "map (\<lambda>i. map2 (+) y1 y2 ! i) (argsort x)
           = map2 (+) (map (\<lambda>i. y1 ! i) (argsort x)) (map (\<lambda>i. y2 ! i) (argsort x))"
  using assms argsort_less [of _ x]
  by (intro nth_equalityI) simp_all

lemma interp1d_scale:
  "interp1d x (map ((*) c) y) x_new = map_sum id (map (map_option ((*) c))) (interp1d x y x_new)"
proof (cases "length x \<noteq> length y \<or> length x < 2")
  case True
  then show ?thesis by (auto simp add: interp1d_def)
next
  case False
  then have len: "length y = length x" "2 \<le> length x" by simp_all
  let ?xs = "map (\<lambda>i. x ! i) (argsort x)"
  let ?ys = "map (\<lambda>i. y ! i) (argsort x)"
  have l: "2 \<le> length ?xs" "length ?ys = length ?xs"
    using len by (simp_all add: length_argsort)
  have "map (call_linear ?xs (map ((*) c) ?ys)) x_new
      = map (map_option ((*) c)) (map (call_linear ?xs ?ys) x_new)"
    by (intro nth_equalityI) (simp_all add: call_linear_scale [OF l] del: map_map)
  then show ?thesis
    using len
    by (simp add: interp1d_def Let_def argsort_take_scale del: map_map)
qed

lemma interp1d_add:
  assumes "length y1 = length y2"
  shows "interp1d x (map2 (+) y1 y2) x_new =
     (case interp1d x y1 x_new of Inl e \<Rightarrow> Inl e
      | Inr r1 \<Rightarrow> (case interp1d x y2 x_new of Inl e \<Rightarrow> Inl e
                    | Inr r2 \<Rightarrow> Inr (map2 (lift2 (+)) r1 r2)))"
proof (cases "length x \<noteq> length y1 \<or> length x < 2")
  case True
  then show ?thesis using assms by (auto simp add: interp1d_def)
next
  case False
  then have len: "length y1 = length x" "length y2 = length x" "2 \<le> length x"
    using assms by simp_all
  let ?xs = "map (\<lambda>i. x ! i) (argsort x)"
  have l: "2 \<le> length ?xs" "length (map (\<lambda>i. y1 ! i) (argsort x)) = length ?xs"
    "length (map (\<lambda>i. y2 ! i) (argsort x)) = length ?xs"
    using len by (simp_all add: length_argsort)
  have "map (call_linear ?xs (map2 (+) (map (\<lambda>i. y1 ! i) (argsort x))
                                       (map (\<lambda>i. y2 ! i) (argsort x)))) x_new
      = map2 (lift2 (+)) (map (call_linear ?xs (map (\<lambda>i. y1 ! i) (argsort x))) x_new)
                         (map (call_linear ?xs (map (\<lambda>i. y2 ! i) (argsort x))) x_new)"
    by (intro nth_equalityI) (simp_all add: call_linear_add [OF l])
  then show ?thesis
    using len
    by (simp add: interp1d_def Let_def argsort_take_add)
qed


lemma lift2_simps:
  "lift2 f None b = None" "lift2 f a None = None" "lift2 f (Some u) (Some v) = Some (f u v)"
  by (simp_all add: lift2_def split: option.splits)

lemma scale_cell:
  "map_option (\<lambda>u. p * u) (map_option ((*) c) v) = map_option ((*) (c::real)) (map_option (\<lambda>u. p * u) v)"
  by (cases v) (simp_all add: mult.left_commute)

lemma add_cell:
  "map_option (\<lambda>u. p * u) (lift2 (+) a b) = lift2 (+) (map_option (\<lambda>u. p * u) a) (map_option (\<lambda>u. p * u) b)"
  by (cases a; cases b) (simp_all add: lift2_simps distrib_left)

lemma integrand_cell_scale:
  "(case map_option ((*) c) kk of None \<Rightarrow> None | Some u \<Rightarrow> fdiv (u * t) s)
     = map_option ((*) c) (case kk of None \<Rightarrow> None | Some u \<Rightarrow> fdiv (u * t) s)"
  by (cases kk) (simp_all add: fdiv_def)

lemma integrand_cell_add:
  "(case lift2 (+) a b of None \<Rightarrow> None | Some u \<Rightarrow> fdiv (u * t) s)
     = lift2 (+) (case a of None \<Rightarrow> None | Some u \<Rightarrow> fdiv (u * t) s)
                 (case b of None \<Rightarrow> None | Some u \<Rightarrow> fdiv (u * t) s)"
  by (cases a; cases b) (simp_all add: lift2_simps fdiv_def distrib_right add_divide_distrib)

lemma kkpks_scale:
  "map2 (\<lambda>p v. map_option (\<lambda>u. p * u) v) pre (map (map_option ((*) c)) r)
     = map (map_option ((*) (c::real))) (map2 (\<lambda>p v. map_option (\<lambda>u. p * u) v) pre r)"
  by (intro nth_equalityI) (simp_all add: scale_cell)

lemma kkpks_add:
  assumes "length r1 = length r2"
  shows "map2 (\<lambda>p v. map_option (\<lambda>u. p * u) v) pre (map2 (lift2 (+)) r1 r2)
     = map2 (lift2 (+)) (map2 (\<lambda>p v. map_option (\<lambda>u. p * u) v) pre r1)
                        (map2 (\<lambda>p v. map_option (\<lambda>u. p * u) v) pre r2)"
  using assms
  by (intro nth_equalityI) (simp_all add: add_cell)

lemma integrand_scale:
  "integrand (map (map_option ((*) c)) kk) k2 s = map (map_option ((*) c)) (integrand kk k2 s)"
  by (intro nth_equalityI)
    (auto simp add: integrand_def fdiv_def algebra_simps split: option.splits)

lemma integrand_add:
  assumes "length kk1 = length kk2"
  shows "integrand (map2 (lift2 (+)) kk1 kk2) k2 s
           = map2 (lift2 (+)) (integrand kk1 k2 s) (integrand kk2 k2 s)"
  using assms
  by (intro nth_equalityI) (simp_all add: integrand_def integrand_cell_add)

lemma those_map_option: "those (map (map_option f) ys) = map_option (map f) (those ys)"
proof (induction ys)
  case Nil
  show ?case by simp
next
  case (Cons y ys)
  then show ?case
    by (cases y; cases "those ys") simp_all
qed

lemma those_lift2:
  "length y1 = length y2 \<Longrightarrow>
   those (map2 (lift2 f) y1 y2) =
     (case those y1 of None \<Rightarrow> None
      | Some a \<Rightarrow> (case those y2 of None \<Rightarrow> None | Some b \<Rightarrow> Some (map2 f a b)))"
proof (induction y1 arbitrary: y2)
  case Nil
  then show ?case by simp
next
  case (Cons u y1)
  then obtain v y2' where y2: "y2 = v # y2'" "length y1 = length y2'"
    by (cases y2) auto
  show ?case
    using Cons.IH [OF y2(2)]
    by (cases u; cases v; cases "those y1"; cases "those y2'") (simp_all add: y2 lift2_simps)
qed

lemma those_length: "those ys = Some a \<Longrightarrow> length a = length ys"
  by (induction ys arbitrary: a) (auto split: option.splits)

lemma trapz_scale: "trapz (map ((*) c) y) x = c * trapz y x"
  by (induction y x rule: trapz.induct) (simp_all add: algebra_simps)

lemma trapz_add: "length a = length b \<Longrightarrow> trapz (map2 (+) a b) x = trapz a x + trapz b x"
proof (induction a x arbitrary: b rule: trapz.induct)
  case (1 y0 y1 ys x0 x1 xs)
  then obtain b0 b1 bs where b: "b = b0 # b1 # bs" "length ys = length bs"
    by (cases b; cases "tl b") auto
  have "trapz (map2 (+) (y1 # ys) (b1 # bs)) (x1 # xs)
      = trapz (y1 # ys) (x1 # xs) + trapz (b1 # bs) (x1 # xs)"
    using b by (intro "1.IH") simp
  moreover have "trapz (map2 (+) (y0 # y1 # ys) b) (x0 # x1 # xs)
      = (x1 - x0) * ((y1 + b1) + (y0 + b0)) / 2 + trapz (map2 (+) (y1 # ys) (b1 # bs)) (x1 # xs)"
    by (simp add: b)
  ultimately show ?case
    by (simp add: b distrib_left add_divide_distrib)
qed (auto simp add: length_Suc_conv Suc_length_conv)

lemma np_trapz_scale: "np_trapz (map (map_option ((*) c)) y) x = map_option ((*) c) (np_trapz y x)"
  by (simp add: np_trapz_def those_map_option option.map_comp comp_def trapz_scale)

lemma np_trapz_add:
  assumes "length y1 = length y2"
  shows "np_trapz (map2 (lift2 (+)) y1 y2) x = lift2 (+) (np_trapz y1 x) (np_trapz y2 x)"
proof (cases "length x < 2")
  case True
  then show ?thesis by (simp add: np_trapz_def lift2_simps)
next
  case False
  show ?thesis
  proof (cases "those y1")
    case None
    then show ?thesis using False by (simp add: np_trapz_def those_lift2 [OF assms] lift2_simps)
  next
    case a: (Some a)
    show ?thesis
    proof (cases "those y2")
      case None
      then show ?thesis using False a by (simp add: np_trapz_def those_lift2 [OF assms] lift2_simps)
    next
      case (Some b)
      have "length a = length b"
        using those_length [OF a] those_length [OF Some] assms by simp
      then show ?thesis
        using False a Some
        by (simp add: np_trapz_def those_lift2 [OF assms] lift2_simps trapz_add)
    qed
  qed
qed

lemma length_integrand: "length (integrand kk k2 s) = min (length kk) (length k2)"
  by (simp add: integrand_def)

lemma interp1d_length: "interp1d x y x_new = Inr r \<Longrightarrow> length r = length x_new"
  by (auto simp add: interp1d_def Let_def split: if_splits)

text \<open>
  Claim C10. For a fixed instance, fixed input wavenumbers and fixed distances the call is
  linear in the power spectrum: the transform of \<open>c * pk1\<close> is \<open>c\<close> times the transform of
  \<open>pk1\<close>, entry by entry, and it raises exactly when the transform of \<open>pk1\<close> raises; for
  \<open>pk1\<close> and \<open>pk2\<close> of one length the transform of \<open>pk1 + pk2\<close> is the sum of the two
  transforms. An entry that is not finite (a distance 0) stays so on both sides.
\<close>

theorem call_linear_in_power_spectrum:
  "PowerToCorrelationGauss_call self k (map ((*) c) pk1) ss
     = map_sum id (map (map_option ((*) c))) (PowerToCorrelationGauss_call self k pk1 ss) \<and>
   (length pk1 = length pk2 \<longrightarrow>
      PowerToCorrelationGauss_call self k (map2 (+) pk1 pk2) ss =
        (case PowerToCorrelationGauss_call self k pk1 ss of
           Inl e \<Rightarrow> Inl e
         | Inr xi1 \<Rightarrow>
             (case PowerToCorrelationGauss_call self k pk2 ss of
                Inl e \<Rightarrow> Inl e
              | Inr xi2 \<Rightarrow> Inr (map2 (lift2 (+)) xi1 xi2))))"
proof (intro conjI impI)
  show "PowerToCorrelationGauss_call self k (map ((*) c) pk1) ss
     = map_sum id (map (map_option ((*) c))) (PowerToCorrelationGauss_call self k pk1 ss)"
  proof (cases "interp1d k pk1 (ks2 self)")
    case (Inl e)
    then show ?thesis
      by (simp add: PowerToCorrelationGauss_call_def interp1d_scale)
  next
    case (Inr r)
    let ?kk = "\<lambda>r. map2 (\<lambda>p v. map_option (\<lambda>u. p * u) v) (precomp self) r"
    have "map (\<lambda>s. np_trapz (integrand (?kk (map (map_option ((*) c)) r)) (ks2 self) s) (ks2 self)) ss
        = map (map_option ((*) c))
            (map (\<lambda>s. np_trapz (integrand (?kk r) (ks2 self) s) (ks2 self)) ss)"
      by (intro nth_equalityI)
        (simp_all only: length_map nth_map kkpks_scale integrand_scale np_trapz_scale)
    then show ?thesis
      using Inr by (simp add: PowerToCorrelationGauss_call_def interp1d_scale Let_def)
  qed
next
  assume len: "length pk1 = length pk2"
  show "PowerToCorrelationGauss_call self k (map2 (+) pk1 pk2) ss =
        (case PowerToCorrelationGauss_call self k pk1 ss of
           Inl e \<Rightarrow> Inl e
         | Inr xi1 \<Rightarrow>
             (case PowerToCorrelationGauss_call self k pk2 ss of
                Inl e \<Rightarrow> Inl e
              | Inr xi2 \<Rightarrow> Inr (map2 (lift2 (+)) xi1 xi2)))"
  proof (cases "interp1d k pk1 (ks2 self)")
    case (Inl e)
    then show ?thesis
      by (simp add: PowerToCorrelationGauss_call_def interp1d_add [OF len])
  next
    case r1: (Inr r1)
    show ?thesis
    proof (cases "interp1d k pk2 (ks2 self)")
      case (Inl e)
      then show ?thesis
        using r1 by (simp add: PowerToCorrelationGauss_call_def interp1d_add [OF len])
    next
      case r2: (Inr r2)
      have l: "length r1 = length r2"
        using interp1d_length [OF r1] interp1d_length [OF r2] by simp
      let ?kk = "\<lambda>r. map2 (\<lambda>p v. map_option (\<lambda>u. p * u) v) (precomp self) r"
      have lk: "length (?kk r1) = length (?kk r2)"
        using l by simp
      have "map (\<lambda>s. np_trapz (integrand (?kk (map2 (lift2 (+)) r1 r2)) (ks2 self) s) (ks2 self)) ss
          = map2 (lift2 (+)) (map (\<lambda>s. np_trapz (integrand (?kk r1) (ks2 self) s) (ks2 self)) ss)
                             (map (\<lambda>s. np_trapz (integrand (?kk r2) (ks2 self) s) (ks2 self)) ss)"
        using lk
        by (intro nth_equalityI)
          (simp_all add: kkpks_add [OF l] integrand_add np_trapz_add length_integrand)
      then show ?thesis
        using r1 r2 by (simp add: PowerToCorrelationGauss_call_def interp1d_add [OF len] Let_def)
    qed
  qed
qed


lemma damping_fun: "(\<lambda>q. q * exp (- q * q * a * a) / (2 * pi * pi)) = damping a"
  by (rule ext) (simp add: damping_def power2_eq_square algebra_simps)

lemma init_fields_gauss:
  assumes "PowerToCorrelationGauss_init np_log e_power k detail a = Inr self"
  shows "k \<noteq> []" "ks0 self = k"
    "ks2 self = map e_power (linspace (np_log (Min (set k))) (np_log (Max (set k)))
                              (detail * length k))"
    "precomp self = map (damping a) (ks2 self)"
    "length (ks2 self) = detail * length k"
proof -
  show ne: "k \<noteq> []"
    using assms by (auto simp add: PowerToCorrelationGauss_init_def split: if_splits)
  let ?grid = "map e_power (linspace (np_log (Min (set k))) (np_log (Max (set k)))
                              (detail * length k))"
  have "PowerToCorrelationGauss_init np_log e_power k detail a
      = Inr \<lparr> ks0 = k, ks2 = ?grid, precomp = map (damping a) ?grid \<rparr>"
    using ne
    by (simp only: PowerToCorrelationGauss_init_def Let_def logspace_def damping_fun if_False)
  with assms have self: "self = \<lparr> ks0 = k, ks2 = ?grid, precomp = map (damping a) ?grid \<rparr>"
    by simp
  show "ks0 self = k" "ks2 self = ?grid" "precomp self = map (damping a) (ks2 self)"
    "length (ks2 self) = detail * length k"
    by (simp_all add: self length_linspace)
qed

lemma argsort_sorted_input:
  assumes "sorted x"
  shows "argsort x = [0..<length x]"
proof -
  have "sorted (map fst (zip x [0..<length x]))"
    using assms by (simp add: map_fst_zip)
  then have "sort_key fst (zip x [0..<length x]) = zip x [0..<length x]"
    by (rule sort_key_id_if_sorted)
  then show ?thesis
    by (simp add: argsort_def map_snd_zip)
qed

lemma call_linear_first:
  assumes "x0 < x1" "x0 \<le> v" "v \<le> x1"
  shows "call_linear (x0 # x1 # xs) (y0 # y1 # ys) v = Some (y0 + (y1 - y0) / (x1 - x0) * (v - x0))"
proof -
  have "searchsorted (x0 # x1 # xs) v \<le> 1"
    using assms by (simp add: searchsorted_def)
  then have "min (max (searchsorted (x0 # x1 # xs) v) 1) (length (x0 # x1 # xs) - 1) = 1"
    by simp
  then show ?thesis
    using assms(1) by (simp add: call_linear_def Let_def fdiv_def)
qed

lemma call_linear_step:
  assumes "x0 < x1" "x1 < v" "xs \<noteq> []"
  shows "call_linear (x0 # x1 # xs) (y0 # y1 # ys) v = call_linear (x1 # xs) (y1 # ys) v"
proof -
  let ?s = "length (takeWhile (\<lambda>x. x < v) xs)"
  let ?j = "min (Suc ?s) (length xs)"
  have s: "searchsorted (x0 # x1 # xs) v = Suc (Suc ?s)" "searchsorted (x1 # xs) v = Suc ?s"
    using assms by (simp_all add: searchsorted_def)
  have j: "1 \<le> ?j" using assms(3) by (cases xs) simp_all
  have i: "min (max (searchsorted (x0 # x1 # xs) v) 1) (length (x0 # x1 # xs) - 1) = Suc ?j"
    "min (max (searchsorted (x1 # xs) v) 1) (length (x1 # xs) - 1) = ?j"
    unfolding s by simp_all
  obtain j' where j': "?j = Suc j'"
    using j by (cases ?j) simp_all
  show ?thesis
    unfolding call_linear_def Let_def i by (simp add: j')
qed

lemma call_linear_lerp:
  assumes "sorted_wrt (<) xs" "length ys = length xs" "2 \<le> length xs"
    and "hd xs \<le> v" "v \<le> last xs"
  shows "call_linear xs ys v = Some (lerp xs ys v)"
  using assms
proof (induction xs ys v rule: lerp.induct)
  case (1 x0 x1 xs y0 y1 ys v)
  show ?case
  proof (cases "v \<le> x1 \<or> xs = []")
    case True
    with "1.prems" have "v \<le> x1" by auto
    with "1.prems" True show ?thesis
      by (simp add: call_linear_first)
  next
    case False
    then have f: "x1 < v" "xs \<noteq> []" by auto
    from "1.prems" f have "call_linear (x1 # xs) (y1 # ys) v = Some (lerp (x1 # xs) (y1 # ys) v)"
      by (intro "1.IH") (use False in \<open>auto simp add: Suc_le_eq\<close>)
    with "1.prems" f show ?thesis
      by (simp add: call_linear_step)
  qed
qed auto

lemma quadrature_step:
  "quadrature f t (Suc (Suc m)) =
     (t (Suc 0) - t 0) * (f 0 + f (Suc 0)) / 2 + quadrature (\<lambda>i. f (Suc i)) (\<lambda>i. t (Suc i)) (Suc m)"
  by (simp add: quadrature_def sum.lessThan_Suc_shift del: sum.lessThan_Suc)

lemma trapz_quadrature:
  "length ys = length xs \<Longrightarrow>
   trapz ys xs = quadrature (\<lambda>i. ys ! i) (\<lambda>i. xs ! i) (length xs)"
proof (induction ys xs rule: trapz.induct)
  case (1 y0 y1 ys x0 x1 xs)
  then have "trapz (y1 # ys) (x1 # xs)
      = quadrature (\<lambda>i. (y1 # ys) ! i) (\<lambda>i. (x1 # xs) ! i) (Suc (length xs))"
    by simp
  then show ?case
    by (simp add: quadrature_step add.commute)
qed (simp_all add: quadrature_def)


lemma interp1d_sorted_value:
  assumes "sorted_wrt (<) k" "length pks = length k" "2 \<le> length k"
    and "\<forall>v\<in>set g. hd k \<le> v \<and> v \<le> last k"
  shows "interp1d k pks g = Inr (map (\<lambda>v. Some (lerp k pks v)) g)"
proof -
  have "sorted k"
    using assms(1) by (rule sorted_wrt_mono_rel [rotated]) simp
  then have ind: "argsort k = [0..<length k]"
    by (rule argsort_sorted_input)
  have xs: "map (\<lambda>i. k ! i) [0..<length k] = k"
    by (rule map_nth)
  have ys: "map (\<lambda>i. pks ! i) [0..<length k] = pks"
    using map_nth [of pks] assms(2) by simp
  have inb: "\<not> list_ex (\<lambda>v. v < hd k \<or> last k < v) g"
    using assms(4) by (auto simp add: list_ex_iff)
  have "map (call_linear k pks) g = map (\<lambda>v. Some (lerp k pks v)) g"
    using assms by (intro map_cong refl call_linear_lerp) auto
  then show ?thesis
    using assms(2,3) inb by (simp add: interp1d_def Let_def ind xs ys)
qed

lemma those_Some: "those (map (\<lambda>v. Some (f v)) xs) = Some (map f xs)"
  by (induction xs) simp_all

lemma those_None: "xs \<noteq> [] \<Longrightarrow> those (map (\<lambda>v. None) xs) = None"
  by (cases xs) simp_all

lemma kkpks_value:
  "map2 (\<lambda>p v. map_option (\<lambda>u. p * u) v) (map f g) (map (\<lambda>v. Some (h v)) g)
     = map (\<lambda>v. Some (f v * h v)) g"
  by (intro nth_equalityI) simp_all

lemma integrand_value:
  "integrand (map (\<lambda>v. Some (c v)) g) g s = map (\<lambda>v. fdiv (c v * sin (v * s)) s) g"
  by (intro nth_equalityI) (simp_all add: integrand_def)

lemma quadrature_cong:
  assumes "\<And>i. i < n \<Longrightarrow> f i = f' i"
  shows "quadrature f t n = quadrature f' t n"
  unfolding quadrature_def
  by (intro sum.cong refl) (use assms in auto)

lemma np_trapz_value:
  assumes "s \<noteq> 0"
  shows "np_trapz (map (\<lambda>v. fdiv (c v * sin (v * s)) s) g) g
           = Some (quadrature (\<lambda>i. c (g ! i) * sin (g ! i * s) / s) (\<lambda>i. g ! i) (length g))"
proof -
  let ?f = "\<lambda>v. c v * sin (v * s) / s"
  have m: "map (\<lambda>v. fdiv (c v * sin (v * s)) s) g = map (\<lambda>v. Some (?f v)) g"
    using assms by (simp add: fdiv_def)
  have "trapz (map ?f g) g = quadrature (\<lambda>i. map ?f g ! i) (\<lambda>i. g ! i) (length g)"
    by (rule trapz_quadrature) simp
  also have "\<dots> = quadrature (\<lambda>i. ?f (g ! i)) (\<lambda>i. g ! i) (length g)"
    by (rule quadrature_cong) simp
  finally have t: "trapz (map ?f g) g = quadrature (\<lambda>i. ?f (g ! i)) (\<lambda>i. g ! i) (length g)" .
  show ?thesis
  proof (cases "length g < 2")
    case True
    then have "quadrature (\<lambda>i. ?f (g ! i)) (\<lambda>i. g ! i) (length g) = 0"
      by (simp add: quadrature_def)
    with True show ?thesis
      by (simp add: np_trapz_def)
  next
    case False
    then show ?thesis
      unfolding m by (simp add: np_trapz_def those_Some t)
  qed
qed

lemma np_trapz_zero_distance:
  "np_trapz (map (\<lambda>v. fdiv (c v * sin (v * 0)) 0) g) g = (if length g < 2 then Some 0 else None)"
proof (cases "length g < 2")
  case True
  then show ?thesis by (simp add: np_trapz_def)
next
  case False
  then have "g \<noteq> []" by auto
  then have "those (map (\<lambda>v. None :: real option) g) = None"
    by (rule those_None)
  with False show ?thesis
    by (simp add: np_trapz_def fdiv_def)
qed

lemma call_gauss_value:
  assumes pre: "precomp self = map (damping a) (ks2 self)"
    and k: "sorted_wrt (<) k" "length pks = length k" "2 \<le> length k"
    and cover: "list_all (\<lambda>v. hd k \<le> v \<and> v \<le> last k) (ks2 self)"
  shows "PowerToCorrelationGauss_call self k pks ss =
     Inr (map (\<lambda>s. if s = 0 then (if length (ks2 self) < 2 then Some 0 else None)
                    else Some (spec_xi (ks2 self) a k pks s)) ss)"
proof -
  let ?g = "ks2 self"
  have "\<forall>v\<in>set ?g. hd k \<le> v \<and> v \<le> last k"
    using cover by (simp add: list_all_iff)
  then have i: "interp1d k pks ?g = Inr (map (\<lambda>v. Some (lerp k pks v)) ?g)"
    by (rule interp1d_sorted_value [OF k])
  have "np_trapz (integrand (map (\<lambda>v. Some (damping a v * lerp k pks v)) ?g) ?g s) ?g
      = (if s = 0 then (if length ?g < 2 then Some 0 else None)
         else Some (spec_xi ?g a k pks s))" for s
  proof (cases "s = 0")
    case True
    then show ?thesis
      using np_trapz_zero_distance [of "\<lambda>v. damping a v * lerp k pks v" ?g]
      by (simp add: integrand_value)
  next
    case False
    then show ?thesis
      using np_trapz_value [OF False, of "\<lambda>v. damping a v * lerp k pks v" ?g]
      by (simp add: integrand_value spec_xi_def)
  qed
  then show ?thesis
    by (simp add: PowerToCorrelationGauss_call_def pre i kkpks_value Let_def)
qed







lemma quadrature_two: "quadrature f t (Suc (Suc 0)) = (t (Suc 0) - t 0) * (f 0 + f (Suc 0)) / 2"
  by (simp add: quadrature_def)

lemma example_spec_xi:
  "spec_xi [1, 2] (1 / 4) [1, 2] [1, 0] 1 = damping (1 / 4) 1 * sin 1 / 2"
  by (simp add: spec_xi_def quadrature_two)

lemma example_precomp: "precomp example_transform = map (damping (1 / 4)) (ks2 example_transform)"
  using init_fields_gauss(4) [OF example_transform_fields(1)] by simp

lemma example_call:
  "PowerToCorrelationGauss_call example_transform [1, 2] [1, 0] [1]
     = Inr [Some (damping (1 / 4) 1 * sin 1 / 2)]"
  using call_gauss_value [OF example_precomp, of "[1, 2]" "[1, 0]" "[1]"]
  by (simp add: example_spec_xi example_transform_fields)

theorem call_linear_in_power_spectrum_witness:
  "length [1, 0 :: real] = length [3, 4 :: real] \<and>
   PowerToCorrelationGauss_call example_transform [1, 2] [1, 0] [1]
     = Inr [Some (damping 0.25 1 * sin 1 / 2)] \<and>
   PowerToCorrelationGauss_call example_transform [1, 2] (map ((*) 5) [1, 0]) [1]
     = Inr [Some (5 * (damping 0.25 1 * sin 1 / 2))] \<and>
   (\<exists>xi2. PowerToCorrelationGauss_call example_transform [1, 2] [3, 4] [1] = Inr [xi2] \<and>
          PowerToCorrelationGauss_call example_transform [1, 2] (map2 (+) [1, 0] [3, 4]) [1]
            = Inr [lift2 (+) (Some (damping 0.25 1 * sin 1 / 2)) xi2])"
proof -
  have c1: "PowerToCorrelationGauss_call example_transform [1, 2] [1, 0] [1]
     = Inr [Some (damping 0.25 1 * sin 1 / 2)]"
    using example_call by simp
  have c2: "PowerToCorrelationGauss_call example_transform [1, 2] [3, 4] [1]
     = Inr [Some (spec_xi [1, 2] 0.25 [1, 2] [3, 4] 1)]"
    using call_gauss_value [OF example_precomp, of "[1, 2]" "[3, 4]" "[1]"]
    by (simp add: example_transform_fields)
  note lin = call_linear_in_power_spectrum [of example_transform "[1, 2]" 5 "[1, 0]" "[1]" "[3, 4]"]
  from lin have "PowerToCorrelationGauss_call example_transform [1, 2] (map ((*) 5) [1, 0]) [1]
     = Inr [Some (5 * (damping 0.25 1 * sin 1 / 2))]"
    unfolding c1 by simp
  moreover from lin have
    "PowerToCorrelationGauss_call example_transform [1, 2] (map2 (+) [1, 0] [3, 4]) [1]
       = Inr [lift2 (+) (Some (damping 0.25 1 * sin 1 / 2)) (Some (spec_xi [1, 2] 0.25 [1, 2] [3, 4] 1))]"
    unfolding c1 c2 by simp
  ultimately show ?thesis
    using c1 c2 by simp
qed
end
